theory Spec2Isabelle
  imports Complex_Main "HOL-Library.List_Lexorder" "HOL-Library.Char_ord"
begin

section \<open>celltypist: prediction, majority voting and training\<close>

text \<open>
  A shallow embedding of \<^verbatim>\<open>celltypist/classifier.py\<close> and \<^verbatim>\<open>celltypist/train.py\<close>.

  Conventions.
  \<^item> A Python exception is a value of \<open>error\<close>; a function that can raise returns
    \<open>error + 'a\<close>, with \<open>Inl\<close> the exception. The sources raise only built-in
    exceptions (\<^verbatim>\<open>ValueError\<close>, \<^verbatim>\<open>Exception\<close>, here \<open>PyException\<close>, ...), with a
    message; the message is kept as a short ASCII tag.
  \<^item> numpy floating-point values are idealised as \<open>real\<close>. The properties below depend
    on which entries are read, compared, selected and stored, not on rounding.
  \<^item> A two-dimensional array is the list of its rows (cells), each a list of columns
    (genes).
  \<^item> Python integers are \<open>int\<close>; positions in arrays are \<open>nat\<close>.
  \<^item> Calls into sklearn's numerical optimisation and numpy's \<^verbatim>\<open>argpartition\<close> are
    parameters of the model: the sources only call them.
\<close>

subsection \<open>Exceptions and numpy helpers\<close>

datatype error =
    ValueError string
  | NameError string
  | KeyError string
  | IndexError string
  | ZeroDivisionError string
  | PyException string

type_synonym matrix = "real list list"

text \<open>Running a fallible function over a list stops at the first exception.\<close>

fun mapM :: "('a \<Rightarrow> error + 'b) \<Rightarrow> 'a list \<Rightarrow> error + 'b list" where
  "mapM f [] = Inr []"
| "mapM f (x # xs) =
     (case f x of
        Inl e \<Rightarrow> Inl e
      | Inr y \<Rightarrow> (case mapM f xs of Inl e \<Rightarrow> Inl e | Inr ys \<Rightarrow> Inr (y # ys)))"

text \<open>
  \<^verbatim>\<open>a[idx]\<close> with an array of non-negative positions (numpy fancy indexing): a
  position past the end raises IndexError.
\<close>

definition take_idx :: "'a list \<Rightarrow> nat list \<Rightarrow> error + 'a list" where
  "take_idx xs idx =
     mapM (\<lambda>i. if i < length xs then Inr (xs ! i) else Inl (IndexError ''index out of bounds'')) idx"

text \<open>\<^verbatim>\<open>m[:, idx]\<close>: the same selection of columns in every row.\<close>

definition take_cols :: "'a list list \<Rightarrow> nat list \<Rightarrow> error + 'a list list" where
  "take_cols m idx = mapM (\<lambda>row. take_idx row idx) m"

text \<open>
  A Python slice \<^verbatim>\<open>xs[a:b]\<close> with integer bounds: a negative bound counts from the end,
  and bounds are clamped to the list.
\<close>

definition slice_bound :: "nat \<Rightarrow> int \<Rightarrow> nat" where
  "slice_bound n i = (if i < 0 then nat (int n + i) else min n (nat i))"

definition slice :: "'a list \<Rightarrow> int \<Rightarrow> int \<Rightarrow> 'a list" where
  "slice xs a b =
     (let lo = slice_bound (length xs) a; hi = slice_bound (length xs) b
      in take (hi - lo) (drop lo xs))"

definition slice_to :: "'a list \<Rightarrow> int \<Rightarrow> 'a list" where
  "slice_to xs b = take (slice_bound (length xs) b) xs"

text \<open>
  \<^verbatim>\<open>np.arange(0, stop, step)\<close> on integers: \<open>0, step, 2 step, ...\<close> before \<open>stop\<close>;
  the number of elements is the ceiling of \<open>stop / step\<close> (none when that is negative),
  and a zero step raises.
\<close>

definition arange0 :: "int \<Rightarrow> int \<Rightarrow> error + int list" where
  "arange0 stop step =
     (if step = 0 then Inl (ZeroDivisionError ''division by zero'')
      else Inr (map (\<lambda>i. int i * step) [0..<nat (- ((- stop) div step))]))"

text \<open>\<^verbatim>\<open>np.unique\<close>: the distinct values, sorted.\<close>

definition np_unique :: "'a::linorder list \<Rightarrow> 'a list" where
  "np_unique xs = sort (remdups xs)"

subsection \<open>The model objects\<close>

text \<open>
  sklearn's \<^verbatim>\<open>SGDClassifier\<close> as far as the sources read and write it:
  \<^verbatim>\<open>coef_\<close> (classes by features), \<^verbatim>\<open>intercept_\<close>, \<^verbatim>\<open>classes_\<close>,
  \<^verbatim>\<open>n_features_in_\<close>, and the attribute \<^verbatim>\<open>features\<close> that \<^verbatim>\<open>train\<close> attaches.
  The scaler is sklearn's \<^verbatim>\<open>StandardScaler\<close>. (Isabelle names do not end in an
  underscore: \<open>coef\<close> is \<^verbatim>\<open>coef_\<close>, \<open>mean\<close> is \<^verbatim>\<open>mean_\<close>, and so on.)
\<close>

record 'l classifier =
  features :: "string list"
  coef :: matrix
  intercept :: "real list"
  classes :: "'l list"
  n_features_in :: nat

record scaler =
  mean :: "real list"
  var :: "real list"
  scale :: "real list"
  scaler_n_features_in :: nat

record description =
  date :: string
  details :: string
  url :: string

record 'l model =
  classifier :: "'l classifier"
  scaler :: scaler
  description :: description

subsection \<open>train.py: the SGD classifier\<close>

text \<open>
  The calls the sources make into sklearn are parameters: the constructor
  \<^verbatim>\<open>SGDClassifier(loss = 'log', alpha, max_iter, n_jobs, **kwargs)\<close> (its result for the
  hyperparameters of this run), \<^verbatim>\<open>fit\<close> and \<^verbatim>\<open>partial_fit\<close> (which may raise), and
  the scaler's \<^verbatim>\<open>fit_transform\<close>, which returns the fitted scaler and the transformed
  matrix.
\<close>

record 'l sklearn =
  new_SGDClassifier :: "'l classifier"
  fit :: "'l classifier \<Rightarrow> matrix \<Rightarrow> 'l list \<Rightarrow> error + 'l classifier"
  partial_fit :: "'l classifier \<Rightarrow> matrix \<Rightarrow> 'l list \<Rightarrow> 'l list \<Rightarrow> error + 'l classifier"
  fit_transform :: "matrix \<Rightarrow> error + (scaler \<times> matrix)"

text \<open>
  The fitting steps a classifier has received, in order: every call of \<^verbatim>\<open>fit\<close> and
  \<^verbatim>\<open>partial_fit\<close> with its arguments. The log is returned also when the function
  raises, so that "no fitting step before the exception" can be stated.
\<close>

datatype 'l fit_call =
    Fit matrix "'l list"
  | Partial_fit matrix "'l list" "'l list"

text \<open>
  The global names of the module \<^verbatim>\<open>train.py\<close> that the functions below look up at run
  time. \<^verbatim>\<open>shuffle\<close> is called in the epoch loop (line 114); a bound \<^verbatim>\<open>shuffle\<close> takes the
  epoch (standing for the state of the random generator), the matrix and the labels, and
  returns both permuted alike.
\<close>

type_synonym 'l shuffle_fn = "int \<Rightarrow> matrix \<Rightarrow> 'l list \<Rightarrow> matrix \<times> 'l list"

record 'l globals =
  shuffle :: "'l shuffle_fn option"

text \<open>
  The module as it is written: its import lines (numpy, pandas, scanpy, AnnData,
  StandardScaler, SGDClassifier, Optional, Union, Model, logger, spmatrix, datetime) and its
  five function definitions bind no name \<^verbatim>\<open>shuffle\<close>, and Python has no such builtin.
\<close>

definition train_globals :: "'l globals" where
  "train_globals = \<lparr>shuffle = None\<rparr>"

text \<open>
  The inner loop, lines 115-116: one \<^verbatim>\<open>partial_fit\<close> per start, on the slice
  \<^verbatim>\<open>[start : start + batch_size]\<close> of the shuffled data.
\<close>

fun sweep_batches ::
  "'l::linorder sklearn \<Rightarrow> int \<Rightarrow> matrix \<Rightarrow> 'l list \<Rightarrow> int list \<Rightarrow> 'l classifier \<Rightarrow>
   'l fit_call list \<Rightarrow> 'l fit_call list \<times> (error + 'l classifier)" where
  "sweep_batches sk batch_size indata labels [] clf calls = (calls, Inr clf)"
| "sweep_batches sk batch_size indata labels (start # starts) clf calls =
     (let xb = slice indata start (start + batch_size);
          yb = slice labels start (start + batch_size);
          cl = np_unique labels;
          calls' = calls @ [Partial_fit xb yb cl]
      in case partial_fit sk clf xb yb cl of
           Inl e \<Rightarrow> (calls', Inl e)
         | Inr clf' \<Rightarrow> sweep_batches sk batch_size indata labels starts clf' calls')"

text \<open>The epoch loop, lines 112-116, over \<^verbatim>\<open>range(1, epochs + 1)\<close>.\<close>

fun epoch_loop ::
  "'l::linorder globals \<Rightarrow> 'l sklearn \<Rightarrow> int \<Rightarrow> int list \<Rightarrow> int list \<Rightarrow> matrix \<Rightarrow> 'l list \<Rightarrow>
   'l classifier \<Rightarrow> 'l fit_call list \<Rightarrow> 'l fit_call list \<times> (error + 'l classifier)" where
  "epoch_loop g sk batch_size starts [] indata labels clf calls = (calls, Inr clf)"
| "epoch_loop g sk batch_size starts (epoch # epochs) indata labels clf calls =
     (case shuffle g of
        None \<Rightarrow> (calls, Inl (NameError ''name shuffle is not defined''))
      | Some sh \<Rightarrow>
          (let (indata', labels') = sh epoch indata labels
           in case sweep_batches sk batch_size indata' labels' starts clf calls of
                (calls', Inl e) \<Rightarrow> (calls', Inl e)
              | (calls', Inr clf') \<Rightarrow>
                  epoch_loop g sk batch_size starts epochs indata' labels' clf' calls'))"

text \<open>
  \<^verbatim>\<open>_SGDClassifier\<close>, lines 95-117 (an Isabelle name does not start with an underscore).
  The hyperparameters \<^verbatim>\<open>alpha\<close>, \<^verbatim>\<open>max_iter\<close>, \<^verbatim>\<open>n_jobs\<close> only reach the sklearn
  constructor and are part of \<open>new_SGDClassifier\<close>.
\<close>

definition train_SGDClassifier ::
  "'l::linorder globals \<Rightarrow> 'l sklearn \<Rightarrow> matrix \<Rightarrow> 'l list \<Rightarrow> bool \<Rightarrow> int \<Rightarrow> int \<Rightarrow> int \<Rightarrow>
   'l fit_call list \<times> (error + 'l classifier)" where
  "train_SGDClassifier g sk indata labels mini_batch batch_number batch_size epochs =
     (let clf = new_SGDClassifier sk in
      if \<not> mini_batch then
        (case fit sk clf indata labels of
           Inl e \<Rightarrow> ([Fit indata labels], Inl e)
         | Inr clf' \<Rightarrow> ([Fit indata labels], Inr clf'))
      else
        (let no_cells = int (length labels) in
         if no_cells \<le> batch_size then
           ([], Inl (ValueError ''Number of cells is fewer than the batch size''))
         else
           (case arange0 no_cells batch_size of
              Inl e \<Rightarrow> ([], Inl e)
            | Inr starts \<Rightarrow>
                epoch_loop g sk batch_size
                  (slice_to starts (min batch_number (int (length starts))))
                  [1..epochs] indata labels clf [])))"

text \<open>
  A stand-in for sklearn on which the model can be run: a fit stores the number of columns
  of the matrix it is given and the sorted labels, and no weights.
\<close>

definition toy_fit :: "'l::linorder classifier \<Rightarrow> matrix \<Rightarrow> 'l list \<Rightarrow> 'l classifier" where
  "toy_fit clf x y =
     clf\<lparr>classes := np_unique y, n_features_in := (case x of [] \<Rightarrow> 0 | r # _ \<Rightarrow> length r)\<rparr>"

definition toy_sklearn :: "'l::linorder sklearn" where
  "toy_sklearn =
     \<lparr>new_SGDClassifier =
        \<lparr>features = [], coef = [], intercept = [], classes = [], n_features_in = 0\<rparr>,
      fit = (\<lambda>clf x y. Inr (toy_fit clf x y)),
      partial_fit = (\<lambda>clf x y cl. Inr (toy_fit clf x y)),
      fit_transform = (\<lambda>x. Inr (\<lparr>mean = [], var = [], scale = [], scaler_n_features_in = 0\<rparr>, x))\<rparr>"

subsection \<open>classifier.py: data frames and the annotation result\<close>

text \<open>
  A pandas \<^verbatim>\<open>DataFrame\<close>: the index (the cell names) and the ordered columns, each a
  name with its values, one per index entry. Values of any column are of one type \<open>'v\<close>
  (Python objects: labels, cluster ids).
\<close>

record 'v frame =
  index :: "string list"
  columns :: "(string \<times> 'v list) list"

text \<open>
  scanpy's \<^verbatim>\<open>AnnData\<close> as far as the sources read it: the matrix \<^verbatim>\<open>X\<close>, the gene and
  cell names, and the optional \<^verbatim>\<open>raw\<close> attribute (its matrix and gene names).
\<close>

record anndata =
  adata_X :: matrix
  var_names :: "string list"
  obs_names :: "string list"
  raw :: "(matrix \<times> string list) option"

text \<open>\<^verbatim>\<open>AnnotationResult\<close>, lines 15-43.\<close>

record 'v annotation_result =
  predicted_labels :: "'v frame"
  probability_table :: "real frame"
  cell_count :: nat
  adata :: anndata

text \<open>
  Python passes objects by reference. Where a property is about the identity of an object,
  the objects live in a store, from references to values; a function that mutates an
  object returns the updated store.
\<close>

type_synonym ref = nat
type_synonym 'v store = "ref \<Rightarrow> 'v annotation_result"

text \<open>\<^verbatim>\<open>df[name]\<close>: the column of that name, KeyError when there is none.\<close>

definition get_column :: "'v frame \<Rightarrow> string \<Rightarrow> error + 'v list" where
  "get_column df name =
     (case map_of (columns df) name of
        None \<Rightarrow> Inl (KeyError name)
      | Some vs \<Rightarrow> Inr vs)"

text \<open>
  \<^verbatim>\<open>pd.crosstab(a, b)\<close> for a Series \<open>a\<close> and an array \<open>b\<close>: pandas builds a frame of
  the two over the index of \<open>a\<close>, which raises ValueError when \<open>b\<close> has another length,
  and counts the pairs. The rows of the table are the distinct values of \<open>a\<close>, sorted,
  its columns the distinct values of \<open>b\<close>, sorted; \<open>counts ! r ! c\<close> is the number of
  positions with the pair (row label r, column label c).
\<close>

record 'v table =
  row_labels :: "'v list"
  col_labels :: "'v list"
  counts :: "nat list list"

definition crosstab :: "'v::linorder list \<Rightarrow> 'v list \<Rightarrow> error + 'v table" where
  "crosstab a b =
     (if length b \<noteq> length a then
        Inl (ValueError ''Length of values does not match length of index'')
      else
        (let rs = np_unique a; cs = np_unique b
         in Inr \<lparr>row_labels = rs, col_labels = cs,
                  counts = map (\<lambda>r. map (\<lambda>c. count_list (zip a b) (r, c)) cs) rs\<rparr>))"

text \<open>
  \<^verbatim>\<open>argmax\<close>: the first position of the maximum; an empty sequence raises.
\<close>

definition argmax :: "'a::linorder list \<Rightarrow> error + nat" where
  "argmax xs =
     (case xs of
        [] \<Rightarrow> Inl (ValueError ''attempt to get argmax of an empty sequence'')
      | x # ys \<Rightarrow> Inr (length (takeWhile (\<lambda>y. y \<noteq> fold max ys x) xs)))"

text \<open>
  \<^verbatim>\<open>votes.idxmax()\<close>: a Series over the columns of the table; for each column the label
  of the row that \<^verbatim>\<open>argmax\<close> of the column's counts gives.
\<close>

definition idxmax :: "'v table \<Rightarrow> error + ('v \<times> 'v) list" where
  "idxmax t =
     mapM (\<lambda>j. case argmax (map (\<lambda>row. row ! j) (counts t)) of
                  Inl e \<Rightarrow> Inl e
                | Inr k \<Rightarrow> Inr (col_labels t ! j, row_labels t ! k))
          [0..<length (col_labels t)]"

text \<open>
  \<^verbatim>\<open>series[keys]\<close> with an array of labels: the value at each label in turn, KeyError
  for a label the Series does not have.
\<close>

definition getitems :: "('k \<times> 'v) list \<Rightarrow> 'k list \<Rightarrow> error + 'v list" where
  "getitems series keys =
     mapM (\<lambda>k. case map_of series k of
                  None \<Rightarrow> Inl (KeyError ''label not in index'')
                | Some v \<Rightarrow> Inr v)
          keys"

text \<open>
  \<^verbatim>\<open>left.join(right)\<close>, a join on the index, for a right frame whose index holds every
  label of the left one (the only use in the sources: line 343 gives \<^verbatim>\<open>majority\<close> the
  index of the left frame). Overlapping column names raise ValueError. Each left row is
  paired with every right row of the same index label: one row for a label that occurs
  once, several for a label that occurs several times.
\<close>

definition join :: "'v frame \<Rightarrow> 'v frame \<Rightarrow> error + 'v frame" where
  "join l r =
     (if \<exists>n \<in> set (map fst (columns l)). n \<in> set (map fst (columns r)) then
        Inl (ValueError ''columns overlap but no suffix specified'')
      else
        (let pairs =
               concat (map (\<lambda>i. map (\<lambda>j. (i, j))
                                   (filter (\<lambda>j. index r ! j = index l ! i) [0..<length (index r)]))
                           [0..<length (index l)])
         in Inr \<lparr>index = map (\<lambda>(i, j). index l ! i) pairs,
                  columns =
                    map (\<lambda>(n, vs). (n, map (\<lambda>(i, j). vs ! i) pairs)) (columns l) @
                    map (\<lambda>(n, vs). (n, map (\<lambda>(i, j). vs ! j) pairs)) (columns r)\<rparr>))"

text \<open>
  \<^verbatim>\<open>Classifier.majority_vote\<close>, lines 319-347. \<open>over_clustering\<close> is the list or numpy
  array of cluster ids, one per cell (line 339 turns a list into an array; both are lists
  here). A pandas Series that carries the cell index of the predictions, as
  \<^verbatim>\<open>over_cluster\<close> returns it, is aligned position by position and behaves as the array of
  its values; a Series over another index is outside this model.

  Line 342 looks the winner of each cell's cluster up and \<^verbatim>\<open>reset_index\<close> makes a
  two-column frame of the cluster ids and the winners; line 343 replaces its index (pandas
  raises ValueError when the lengths differ), line 344 names the columns, line 345 joins and
  rebinds the attribute of the object \<open>predictions\<close> refers to, which is returned.
\<close>

definition majority_vote :: "'v::linorder store \<Rightarrow> ref \<Rightarrow> 'v list \<Rightarrow> error + ('v store \<times> ref)" where
  "majority_vote h predictions over_clustering =
     (let df = predicted_labels (h predictions) in
      case get_column df ''predicted_labels'' of
        Inl e \<Rightarrow> Inl e
      | Inr labels \<Rightarrow>
     (case crosstab labels over_clustering of
        Inl e \<Rightarrow> Inl e
      | Inr votes \<Rightarrow>
     (case idxmax votes of
        Inl e \<Rightarrow> Inl e
      | Inr winners \<Rightarrow>
     (case getitems winners over_clustering of
        Inl e \<Rightarrow> Inl e
      | Inr majority_voting \<Rightarrow>
        if length over_clustering \<noteq> length (index df) then
          Inl (ValueError ''Length mismatch'')
        else
          (case join df \<lparr>index = index df,
                         columns = [(''over_clustering'', over_clustering),
                                    (''majority_voting'', majority_voting)]\<rparr> of
             Inl e \<Rightarrow> Inl e
           | Inr joined \<Rightarrow>
               Inr (h(predictions := (h predictions)\<lparr>predicted_labels := joined\<rparr>),
                    predictions))))))"

subsection \<open>classifier.py: loading and celltyping\<close>

text \<open>
  The \<^verbatim>\<open>Classifier\<close> object, lines 186-228: the input \<^verbatim>\<open>adata\<close> (field \<open>self_adata\<close>;
  the name \<open>adata\<close> is the field of the annotation result), the expression matrix
  \<^verbatim>\<open>indata\<close>, its gene names and the model. Class labels are strings (cell type names).
\<close>

record Classifier =
  self_adata :: anndata
  indata :: matrix
  indata_genes :: "string list"
  model :: "string model"

text \<open>\<^verbatim>\<open>np.expm1\<close> and the minimum of all entries of a matrix (which raises on no entry).\<close>

definition expm1 :: "real \<Rightarrow> real" where
  "expm1 x = exp x - 1"

definition matrix_min :: "matrix \<Rightarrow> error + real" where
  "matrix_min m =
     (case concat m of
        [] \<Rightarrow> Inl (ValueError ''zero-size array to reduction operation minimum'')
      | x # xs \<Rightarrow> Inr (fold min xs x))"

text \<open>
  The integrity check of lines 222-223, which \<^verbatim>\<open>train\<close> repeats in lines 144-145:
  \<^verbatim>\<open>indata[0]\<close> is the first row (IndexError when there is none), and the condition is
  \<^verbatim>\<open>np.abs(np.expm1(indata[0]).sum() - 10000) > 1\<close>.
\<close>

definition check_log1p_normalized :: "matrix \<Rightarrow> error + unit" where
  "check_log1p_normalized m =
     (case m of
        [] \<Rightarrow> Inl (IndexError ''index 0 is out of bounds'')
      | row0 # rest \<Rightarrow>
          if \<bar>sum_list (map expm1 row0) - 10000\<bar> > 1 then
            Inl (ValueError ''Invalid expression matrix, expect log1p normalized expression to 10000 counts per cell'')
          else Inr ())"

text \<open>
  \<^verbatim>\<open>Classifier.__init__\<close> for a file name ending in \<^verbatim>\<open>.h5ad\<close>, lines 210-228, from the
  object that \<^verbatim>\<open>sc.read\<close> returns. (For the text and mtx formats, lines 190-209, the
  constructor normalises the counts itself with scanpy and makes no check.)
\<close>

definition Classifier_init_h5ad :: "anndata \<Rightarrow> string model \<Rightarrow> error + Classifier" where
  "Classifier_init_h5ad a m =
     (case matrix_min (adata_X a) of
        Inl e \<Rightarrow> Inl e
      | Inr lowest \<Rightarrow>
     (case (if lowest < 0 then
              (case raw a of
                 None \<Rightarrow> Inl (PyException ''Fail to use the .raw attribute in the input object'')
               | Some (x, genes) \<Rightarrow> Inr (x, genes))
            else Inr (adata_X a, var_names a)) of
        Inl e \<Rightarrow> Inl e
      | Inr (x, genes) \<Rightarrow>
     (case check_log1p_normalized x of
        Inl e \<Rightarrow> Inl e
      | Inr u \<Rightarrow> Inr \<lparr>self_adata = a, indata = x, indata_genes = genes, model = m\<rparr>)))"

text \<open>
  \<^verbatim>\<open>np.isin(a, b)\<close>, and \<^verbatim>\<open>np.where(flags)[0]\<close>: the positions where the flag is set.
\<close>

definition isin :: "'a list \<Rightarrow> 'a list \<Rightarrow> bool list" where
  "isin xs ys = map (\<lambda>x. x \<in> set ys) xs"

definition where_true :: "bool list \<Rightarrow> nat list" where
  "where_true flags = filter (\<lambda>i. flags ! i) [0..<length flags]"

text \<open>
  Line 249: a frame of the model's features with their positions, indexed by feature, and
  \<^verbatim>\<open>.loc[genes, 'index']\<close>: for each gene in turn, the positions where the model has it
  (all of them, should the model list a feature more than once); KeyError for a gene the
  model does not have.
\<close>

definition loc_positions :: "'a list \<Rightarrow> 'a list \<Rightarrow> error + nat list" where
  "loc_positions feats genes =
     (case mapM (\<lambda>g. case filter (\<lambda>i. feats ! i = g) [0..<length feats] of
                        [] \<Rightarrow> Inl (KeyError ''not in index'')
                      | i # is \<Rightarrow> Inr (i # is))
                genes of
        Inl e \<Rightarrow> Inl e
      | Inr ps \<Rightarrow> Inr (concat ps))"

text \<open>
  An arithmetic operation between a matrix of \<open>k\<close> columns and a vector, by numpy's
  broadcasting: column by column when the vector has \<open>k\<close> entries; a vector of one entry
  is applied to every column; a matrix of one column is stretched to the vector's length;
  any other pair of shapes raises ValueError. The result comes with its number of columns.
\<close>

definition broadcast ::
  "(real \<Rightarrow> real \<Rightarrow> real) \<Rightarrow> nat \<Rightarrow> matrix \<Rightarrow> real list \<Rightarrow> error + (nat \<times> matrix)" where
  "broadcast f k m v =
     (if length v = k then Inr (k, map (\<lambda>row. map (\<lambda>(x, y). f x y) (zip row v)) m)
      else if length v = 1 then Inr (k, map (map (\<lambda>x. f x (v ! 0))) m)
      else if k = 1 then Inr (length v, map (\<lambda>row. map (f (row ! 0)) v) m)
      else Inl (ValueError ''operands could not be broadcast together''))"

text \<open>
  \<^verbatim>\<open>Classifier.celltype\<close>, lines 243-260: matching the genes, scaling the input and
  restricting the model, all by assignment to attributes of \<^verbatim>\<open>self\<close> and of
  \<^verbatim>\<open>self.model.classifier\<close>. The division is the one of the reals: where a scale is
  zero numpy yields an infinity or NaN and no exception, which the reals do not have, so
  statements about the quotient's value are made for nonzero scales only.
\<close>

definition match_and_scale :: "Classifier \<Rightarrow> error + Classifier" where
  "match_and_scale self =
     (let clf = classifier (model self);
          k_x = isin (indata_genes self) (features clf);
          k_x_idx = where_true k_x
      in
      case take_cols (indata self) k_x_idx of Inl e \<Rightarrow> Inl e | Inr x1 \<Rightarrow>
      case take_idx (indata_genes self) k_x_idx of Inl e \<Rightarrow> Inl e | Inr genes1 \<Rightarrow>
      case loc_positions (features clf) genes1 of Inl e \<Rightarrow> Inl e | Inr lr_idx \<Rightarrow>
      case take_idx (mean (scaler (model self))) lr_idx of Inl e \<Rightarrow> Inl e | Inr means \<Rightarrow>
      case take_idx (scale (scaler (model self))) lr_idx of Inl e \<Rightarrow> Inl e | Inr sds \<Rightarrow>
      case broadcast (-) (length k_x_idx) x1 means of Inl e \<Rightarrow> Inl e | Inr (k1, x2) \<Rightarrow>
      case broadcast (/) k1 x2 sds of Inl e \<Rightarrow> Inl e | Inr (k2, x3) \<Rightarrow>
      case take_idx (features clf) lr_idx of Inl e \<Rightarrow> Inl e | Inr feats' \<Rightarrow>
      case take_cols (coef clf) lr_idx of Inl e \<Rightarrow> Inl e | Inr coef' \<Rightarrow>
        Inr (self\<lparr>indata := map (map (\<lambda>x. if x > 10 then 10 else x)) x3,
                  indata_genes := genes1,
                  model := (model self)\<lparr>classifier :=
                    clf\<lparr>n_features_in := length lr_idx, features := feats', coef := coef'\<rparr>\<rparr>\<rparr>))"

text \<open>
  Lines 262-267: the prediction and the result. \<^verbatim>\<open>Model.predict_labels_and_prob\<close> is
  defined in \<^verbatim>\<open>models.py\<close>, which is not among the sources, so it is a parameter here:
  from the model and the scaled matrix it gives the labels and the probability matrix, or
  raises. The two \<^verbatim>\<open>DataFrame\<close> constructors raise ValueError when the shape of the values
  does not fit the index (the cells) and the columns.
\<close>

type_synonym predictor = "string model \<Rightarrow> matrix \<Rightarrow> error + (string list \<times> matrix)"

definition predict_and_wrap ::
  "predictor \<Rightarrow> Classifier \<Rightarrow> error + (string annotation_result \<times> Classifier)" where
  "predict_and_wrap predict self =
     (case predict (model self) (indata self) of
        Inl e \<Rightarrow> Inl e
      | Inr (lab_mat, prob_mat) \<Rightarrow>
          (let cells = obs_names (self_adata self);
               cls = classes (classifier (model self))
           in if length lab_mat \<noteq> length cells \<or> length prob_mat \<noteq> length cells \<or>
                 (\<exists>row \<in> set prob_mat. length row \<noteq> length cls) then
                Inl (ValueError ''Shape of passed values does not match the indices'')
              else
                Inr (\<lparr>predicted_labels =
                        \<lparr>index = cells, columns = [(''predicted_labels'', lab_mat)]\<rparr>,
                      probability_table =
                        \<lparr>index = cells,
                         columns = map (\<lambda>j. (cls ! j, map (\<lambda>row. row ! j) prob_mat))
                                       [0..<length cls]\<rparr>,
                      cell_count = length cells,
                      adata = self_adata self\<rparr>,
                     self)))"

definition celltype ::
  "predictor \<Rightarrow> Classifier \<Rightarrow> error + (string annotation_result \<times> Classifier)" where
  "celltype predict self =
     (case match_and_scale self of
        Inl e \<Rightarrow> Inl e
      | Inr self' \<Rightarrow> predict_and_wrap predict self')"

text \<open>
  Modelled from the spec: \<^verbatim>\<open>Model.predict_labels_and_prob\<close> (file \<^verbatim>\<open>models.py\<close>, not
  among the sources), after section 4.3 of the specification. The raw scores are
  \<open>S = Z W\<^sup>T + b\<close>; the probabilities are the sigmoid of each score for up to two
  classes and the row-wise softmax for more; the label of a row is the class of the
  largest score, the first such class on a tie. It serves to run \<open>celltype\<close> on concrete
  inputs; the theorems about \<open>celltype\<close> hold for every predictor.
\<close>

definition sigmoid :: "real \<Rightarrow> real" where
  "sigmoid x = 1 / (1 + exp (- x))"

definition softmax :: "real list \<Rightarrow> real list" where
  "softmax xs = map (\<lambda>x. exp x / sum_list (map exp xs)) xs"

definition decision_function :: "string model \<Rightarrow> matrix \<Rightarrow> matrix" where
  "decision_function m z =
     map (\<lambda>row. map (\<lambda>(w, b). sum_list (map (\<lambda>(x, y). x * y) (zip row w)) + b)
                     (zip (coef (classifier m)) (intercept (classifier m))))
         z"

definition predict_labels_and_prob :: predictor where
  "predict_labels_and_prob m z =
     (let scores = decision_function m z;
          cls = classes (classifier m)
      in case mapM (\<lambda>s. case argmax s of Inl e \<Rightarrow> Inl e | Inr k \<Rightarrow> Inr (cls ! k)) scores of
           Inl e \<Rightarrow> Inl e
         | Inr labels \<Rightarrow>
             Inr (labels, map (\<lambda>s. if length cls \<le> 2 then map sigmoid s else softmax s) scores))"

text \<open>The positions that line 249 computes, and a well-formed input of \<open>celltype\<close>.\<close>

definition lr_positions :: "string list \<Rightarrow> string list \<Rightarrow> nat list" where
  "lr_positions feats genes =
     concat (map (\<lambda>g. filter (\<lambda>i. feats ! i = g) [0..<length feats])
                 (filter (\<lambda>g. g \<in> set feats) genes))"

definition well_formed :: "Classifier \<Rightarrow> bool" where
  "well_formed self \<longleftrightarrow>
     (\<forall>row \<in> set (indata self). length row = length (indata_genes self)) \<and>
     distinct (features (classifier (model self))) \<and>
     length (mean (scaler (model self))) = length (features (classifier (model self))) \<and>
     length (scale (scaler (model self))) = length (features (classifier (model self))) \<and>
     (\<forall>row \<in> set (coef (classifier (model self))).
        length row = length (features (classifier (model self))))"

subsection \<open>train.py: feature selection and train\<close>

text \<open>
  \<^verbatim>\<open>np.argpartition(row, kth)\<close> is a parameter: numpy fixes what it returns only up to
  the order among equal values. A call with a valid \<open>kth\<close> (negative values count from
  the end) returns a permutation of the positions of the row in which the position at
  \<open>kth\<close> holds a value that is at its sorted place: no smaller than the values at
  the positions before it, no larger than the values at the positions after it.
\<close>

type_synonym argpartition = "real list \<Rightarrow> int \<Rightarrow> error + nat list"

definition partitioned_at :: "real list \<Rightarrow> nat \<Rightarrow> nat list \<Rightarrow> bool" where
  "partitioned_at a k p \<longleftrightarrow>
     k < length a \<and> length p = length a \<and> distinct p \<and> list_all (\<lambda>i. i < length a) p \<and>
     list_all (\<lambda>i. a ! (p ! i) \<le> a ! (p ! k)) [0..<k] \<and>
     list_all (\<lambda>i. a ! (p ! k) \<le> a ! (p ! i)) [Suc k..<length a]"

text \<open>
  An instance to run the model on: all positions sorted by their values (a stable sort,
  which is a partition at every place), and numpy's ValueError for a \<open>kth\<close> out of
  bounds.
\<close>

definition sorting_argpartition :: argpartition where
  "sorting_argpartition a kth =
     (if - int (length a) \<le> kth \<and> kth < int (length a) then
        Inr (sort_key (\<lambda>i. a ! i) [0..<length a])
      else Inl (ValueError ''kth out of bounds''))"

text \<open>A Python slice \<^verbatim>\<open>xs[a:]\<close>.\<close>

definition slice_from :: "'a list \<Rightarrow> int \<Rightarrow> 'a list" where
  "slice_from xs a = drop (slice_bound (length xs) a) xs"

text \<open>
  Lines 170-171: for every class (row of \<^verbatim>\<open>coef_\<close>) the positions that
  \<^verbatim>\<open>argpartition\<close> of the absolute weights puts last, from \<^verbatim>\<open>-top_genes\<close> on; then
  \<^verbatim>\<open>np.unique\<close> of all of them.
\<close>

definition gene_index_of :: "argpartition \<Rightarrow> matrix \<Rightarrow> int \<Rightarrow> error + nat list" where
  "gene_index_of ap weights top_genes =
     (case mapM (\<lambda>row. case ap (map abs row) (- top_genes) of
                         Inl e \<Rightarrow> Inl e
                       | Inr p \<Rightarrow> Inr (slice_from p (- top_genes)))
                weights of
        Inl e \<Rightarrow> Inl e
      | Inr rows \<Rightarrow> Inr (np_unique (concat rows)))"

text \<open>
  Lines 166-182, feature selection: the selected genes and columns, the second round of
  training on them, and the scaler cut to them (it is not fitted again). The calls of the
  second round are appended to those of the first.
\<close>

definition select_features ::
  "'l::linorder globals \<Rightarrow> 'l sklearn \<Rightarrow> argpartition \<Rightarrow> matrix \<Rightarrow> 'l list \<Rightarrow> string list \<Rightarrow>
   bool \<Rightarrow> int \<Rightarrow> int \<Rightarrow> int \<Rightarrow> int \<Rightarrow> 'l classifier \<Rightarrow> scaler \<Rightarrow> 'l fit_call list \<Rightarrow>
   'l fit_call list \<times> (error + ('l classifier \<times> scaler \<times> string list))" where
  "select_features g sk ap x labels genes mini_batch batch_number batch_size epochs top_genes
     clf sc calls =
     (if int (length genes) \<le> top_genes then
        (calls, Inl (ValueError ''The number of genes is fewer than the top_genes''))
      else
        case gene_index_of ap (coef clf) top_genes of Inl e \<Rightarrow> (calls, Inl e) | Inr gene_index \<Rightarrow>
        case take_idx genes gene_index of Inl e \<Rightarrow> (calls, Inl e) | Inr genes' \<Rightarrow>
        case take_cols x gene_index of Inl e \<Rightarrow> (calls, Inl e) | Inr x' \<Rightarrow>
        case train_SGDClassifier g sk x' labels mini_batch batch_number batch_size epochs of
          (calls2, Inl e) \<Rightarrow> (calls @ calls2, Inl e)
        | (calls2, Inr clf2) \<Rightarrow>
        case take_idx (mean sc) gene_index of Inl e \<Rightarrow> (calls @ calls2, Inl e) | Inr mean' \<Rightarrow>
        case take_idx (var sc) gene_index of Inl e \<Rightarrow> (calls @ calls2, Inl e) | Inr var' \<Rightarrow>
        case take_idx (scale sc) gene_index of Inl e \<Rightarrow> (calls @ calls2, Inl e) | Inr scale' \<Rightarrow>
          (calls @ calls2,
           Inr (clf2,
                \<lparr>mean = mean', var = var', scale = scale',
                 scaler_n_features_in = length gene_index\<rparr>,
                genes')))"

text \<open>
  \<^verbatim>\<open>train\<close>, lines 119-189, from the arrays that \<^verbatim>\<open>_prepare_data\<close>, \<^verbatim>\<open>_to_array\<close>
  and \<^verbatim>\<open>np.array\<close> give (reading files is outside the model): the matrix \<open>x\<close>, a
  rectangular array, the labels and the genes. \<open>now\<close> is \<^verbatim>\<open>str(datetime.now())\<close>.
  The function is given in two parts: \<open>train_checked\<close> is lines 146-189, what follows
  the integrity check of lines 144-145. Line 151 flags the genes whose column sums to
  zero, lines 152-155 drop them, line 160 clips from above.
\<close>

definition train_checked ::
  "'l::linorder globals \<Rightarrow> 'l sklearn \<Rightarrow> argpartition \<Rightarrow> string \<Rightarrow> matrix \<Rightarrow> 'l list \<Rightarrow>
   string list \<Rightarrow> bool \<Rightarrow> int \<Rightarrow> int \<Rightarrow> int \<Rightarrow> bool \<Rightarrow> int \<Rightarrow> string \<Rightarrow> string \<Rightarrow> string \<Rightarrow>
   'l fit_call list \<times> (error + 'l model)" where
  "train_checked g sk ap now x labels genes mini_batch batch_number batch_size epochs
     feature_selection top_genes date' details' url' =
     (let n_vars = (case x of [] \<Rightarrow> 0 | row0 # rest \<Rightarrow> length row0) in
      if length labels \<noteq> length x then
        ([], Inl (ValueError ''Length of training labels does not match the number of input cells''))
      else if length genes \<noteq> n_vars then
        ([], Inl (ValueError ''The number of genes provided does not match the number of genes in the training data''))
      else
        let flag = map (\<lambda>j. sum_list (map (\<lambda>row. row ! j) x) = 0) [0..<n_vars];
            keep = where_true (map Not flag);
            x1 = (if True \<in> set flag then map (\<lambda>row. map (\<lambda>j. row ! j) keep) x else x);
            genes1 = (if True \<in> set flag then map (\<lambda>j. genes ! j) keep else genes)
        in
        case fit_transform sk x1 of Inl e \<Rightarrow> ([], Inl e) | Inr (sc, x2) \<Rightarrow>
        let x3 = map (map (\<lambda>v. min v 10)) x2 in
        case train_SGDClassifier g sk x3 labels mini_batch batch_number batch_size epochs of
          (calls, Inl e) \<Rightarrow> (calls, Inl e)
        | (calls, Inr clf) \<Rightarrow>
        case (if feature_selection then
                select_features g sk ap x3 labels genes1 mini_batch batch_number batch_size
                  epochs top_genes clf sc calls
              else (calls, Inr (clf, sc, genes1))) of
          (calls', Inl e) \<Rightarrow> (calls', Inl e)
        | (calls', Inr (clf', sc', genes')) \<Rightarrow>
            (calls',
             Inr \<lparr>classifier = clf'\<lparr>features := genes'\<rparr>,
                  scaler = sc',
                  description =
                    \<lparr>date = (if date' = [] then now else date'), details = details',
                     url = url'\<rparr>\<rparr>))"

definition train ::
  "'l::linorder globals \<Rightarrow> 'l sklearn \<Rightarrow> argpartition \<Rightarrow> string \<Rightarrow> matrix \<Rightarrow> 'l list \<Rightarrow>
   string list \<Rightarrow> bool \<Rightarrow> int \<Rightarrow> int \<Rightarrow> int \<Rightarrow> bool \<Rightarrow> int \<Rightarrow> string \<Rightarrow> string \<Rightarrow> string \<Rightarrow>
   'l fit_call list \<times> (error + 'l model)" where
  "train g sk ap now x labels genes mini_batch batch_number batch_size epochs
     feature_selection top_genes date' details' url' =
     (case check_log1p_normalized x of
        Inl e \<Rightarrow> ([], Inl e)
      | Inr u \<Rightarrow>
          train_checked g sk ap now x labels genes mini_batch batch_number batch_size epochs
            feature_selection top_genes date' details' url')"

text \<open>
  A stand-in for sklearn that returns given weights, with the shapes sklearn gives:
  \<^verbatim>\<open>coef_\<close> has one row per class when the labels hold three or more classes and a
  single row when they hold two, and \<^verbatim>\<open>fit\<close> raises a ValueError on fewer than two
  classes. \<open>fit\<close> stores the given weights when they have that many rows, each as long
  as the matrix has columns, and rows of zeros otherwise; the scaler it fits is the
  identity (means 0, variances and scales 1).
\<close>

definition coef_rows :: "'l list \<Rightarrow> nat" where
  "coef_rows cl = (if length cl = 2 then 1 else length cl)"

definition canned_sklearn :: "matrix \<Rightarrow> 'l::linorder sklearn" where
  "canned_sklearn w =
     \<lparr>new_SGDClassifier =
        \<lparr>features = [], coef = [], intercept = [], classes = [], n_features_in = 0\<rparr>,
      fit = (\<lambda>clf x y.
               let k = (case x of [] \<Rightarrow> 0 | r # rs \<Rightarrow> length r);
                   cl = np_unique y;
                   n = coef_rows cl
               in if length cl < 2 then
                    Inl (ValueError ''The number of classes has to be greater than one'')
                  else
                    Inr (clf\<lparr>coef := (if length w = n \<and> list_all (\<lambda>row. length row = k) w then w
                                        else replicate n (replicate k 0)),
                             intercept := replicate n 0,
                             classes := cl, n_features_in := k\<rparr>)),
      partial_fit = (\<lambda>clf x y cl. Inr (toy_fit clf x y)),
      fit_transform = (\<lambda>x.
               let k = (case x of [] \<Rightarrow> 0 | r # rs \<Rightarrow> length r)
               in Inr (\<lparr>mean = replicate k 0, var = replicate k 1, scale = replicate k 1,
                        scaler_n_features_in = k\<rparr>, x))\<rparr>"

text \<open>
  Vocabulary for the properties of feature selection. \<open>class_top n k row sel\<close>: the
  list \<open>sel\<close> holds \<open>k\<close> distinct positions below \<open>n\<close> that are a top \<open>k\<close>
  of the class by absolute weight: fewer than \<open>k\<close> positions have a strictly larger
  absolute weight than a selected one, and no position left out has a larger absolute
  weight than a selected one. \<open>mean_abs_weight\<close> is the ranking that the specification
  describes: the mean over the classes of the absolute weight of a feature.
\<close>

definition class_top :: "nat \<Rightarrow> nat \<Rightarrow> real list \<Rightarrow> nat list \<Rightarrow> bool" where
  "class_top n k row sel \<longleftrightarrow>
     length sel = k \<and> distinct sel \<and> set sel \<subseteq> {..<n} \<and>
     (\<forall>i \<in> set sel. card {j. j < n \<and> \<bar>row ! i\<bar> < \<bar>row ! j\<bar>} < k) \<and>
     (\<forall>j<n. j \<notin> set sel \<longrightarrow> (\<forall>i \<in> set sel. \<bar>row ! j\<bar> \<le> \<bar>row ! i\<bar>))"

definition mean_abs_weight :: "matrix \<Rightarrow> nat \<Rightarrow> real" where
  "mean_abs_weight w j = sum_list (map (\<lambda>row. \<bar>row ! j\<bar>) w) / real (length w)"

text \<open>
  The position of a feature in a list that holds it once, and the clipping of line 256.
\<close>

definition position :: "'a list \<Rightarrow> 'a \<Rightarrow> nat" where
  "position xs x = hd (filter (\<lambda>i. xs ! i = x) [0..<length xs])"

definition clip10 :: "real \<Rightarrow> real" where
  "clip10 x = (if x > 10 then 10 else x)"

text \<open>
  A small model and input to run \<open>celltype\<close> on: two classes over the features CD19 and
  CD3E, means 1 and the given scales; one cell with the values 3 and 7 for the given two
  genes.
\<close>

definition example_model :: "real list \<Rightarrow> string model" where
  "example_model sds =
     \<lparr>classifier = \<lparr>features = [''CD19'', ''CD3E''], coef = [[2, 0], [0, 2]],
                     intercept = [0, 0], classes = [''B cell'', ''T cell''], n_features_in = 2\<rparr>,
      scaler = \<lparr>mean = [1, 1], var = map (\<lambda>s. s * s) sds, scale = sds,
                scaler_n_features_in = 2\<rparr>,
      description = \<lparr>date = ''2021-01-01'', details = [], url = []\<rparr>\<rparr>"

definition example_input :: "string list \<Rightarrow> real list \<Rightarrow> Classifier" where
  "example_input genes sds =
     \<lparr>self_adata = \<lparr>adata_X = [[3, 7]], var_names = genes, obs_names = [''cell1''],
                    raw = None\<rparr>,
      indata = [[3, 7]], indata_genes = genes, model = example_model sds\<rparr>"

text \<open>
  Vocabulary for the properties of majority voting. \<open>votes_for labels clusters c l\<close> is
  the number of cells of cluster \<open>c\<close> whose predicted label is \<open>l\<close>. A label wins a
  cluster when no label has more votes there and it is the least, in the order of the
  labels (for strings: lexicographic), of the labels with as many votes. A frame is
  rectangular when every column has one value per index entry, as pandas keeps it.
\<close>

definition votes_for :: "'v list \<Rightarrow> 'v list \<Rightarrow> 'v \<Rightarrow> 'v \<Rightarrow> nat" where
  "votes_for labels clusters c l =
     length (filter (\<lambda>i. clusters ! i = c \<and> labels ! i = l) [0..<length clusters])"

definition wins :: "'v::linorder list \<Rightarrow> 'v list \<Rightarrow> 'v \<Rightarrow> 'v \<Rightarrow> bool" where
  "wins labels clusters c w \<longleftrightarrow>
     (\<forall>l. votes_for labels clusters c l \<le> votes_for labels clusters c w) \<and>
     (\<forall>l. votes_for labels clusters c l = votes_for labels clusters c w \<longrightarrow> w \<le> l)"

definition rectangular :: "'v frame \<Rightarrow> bool" where
  "rectangular df \<longleftrightarrow> (\<forall>(n, vs) \<in> set (columns df). length vs = length (index df))"

text \<open>
  An annotation result of four cells with the given predicted labels, as
  \<^verbatim>\<open>Classifier.celltype\<close> builds it, to run the model on.
\<close>

definition four_cells :: "string list" where
  "four_cells = [''cell1'', ''cell2'', ''cell3'', ''cell4'']"

definition example_result :: "string list \<Rightarrow> string annotation_result" where
  "example_result labels =
     \<lparr>predicted_labels = \<lparr>index = four_cells, columns = [(''predicted_labels'', labels)]\<rparr>,
      probability_table = \<lparr>index = four_cells, columns = []\<rparr>,
      cell_count = 4,
      adata = \<lparr>adata_X = [], var_names = [], obs_names = four_cells, raw = None\<rparr>\<rparr>"

section \<open>Properties\<close>

subsection \<open>Majority voting\<close>


lemma mapM_total:
  assumes "\<And>x. x \<in> set xs \<Longrightarrow> f x = Inr (g x)"
  shows "mapM f xs = Inr (map g xs)"
  using assms by (induction xs) auto

lemma argmax_first:
  assumes "xs \<noteq> []"
  shows "\<exists>k. argmax xs = Inr k \<and> k < length xs \<and>
             (\<forall>i<length xs. xs ! i \<le> xs ! k) \<and> (\<forall>i<k. xs ! i \<noteq> xs ! k)"
proof -
  obtain x ys where xs: "xs = x # ys" using assms by (cases xs) auto
  define m where "m = Max (set xs)"
  have m_fold: "fold max ys x = m" unfolding m_def xs by (rule Max.set_eq_fold[symmetric])
  define k where "k = length (takeWhile (\<lambda>y. y \<noteq> m) xs)"
  have m_in: "m \<in> set xs" unfolding m_def using assms by (intro Max_in) auto
  have "takeWhile (\<lambda>y. y \<noteq> m) xs \<noteq> xs" using m_in by auto
  then have "k \<noteq> length xs"
    unfolding k_def using takeWhile_eq_take[of "\<lambda>y. y \<noteq> m" xs] by auto
  then have k_lt: "k < length xs"
    unfolding k_def using length_takeWhile_le[of "\<lambda>y. y \<noteq> m" xs] by simp
  have at_k: "xs ! k = m"
    using nth_length_takeWhile[of "\<lambda>y. y \<noteq> m" xs] k_lt unfolding k_def by simp
  have 1: "argmax xs = Inr k" by (simp add: argmax_def xs m_fold[symmetric] k_def)
  have 2: "xs ! i \<le> xs ! k" if "i < length xs" for i
    using that at_k m_def by simp
  have 3: "xs ! i \<noteq> xs ! k" if "i < k" for i
  proof -
    have "xs ! i \<in> set (takeWhile (\<lambda>y. y \<noteq> m) xs)"
      using that unfolding k_def by (metis nth_mem takeWhile_nth)
    then show ?thesis using at_k by (auto dest: set_takeWhileD)
  qed
  show ?thesis using 1 k_lt 2 3 by blast
qed

lemma count_zip_votes:
  assumes "length a = length b"
  shows "count_list (zip a b) (l, c) = votes_for a b c l"
proof -
  have "count_list (zip a b) (l, c) = card {i. i < length (zip a b) \<and> (l, c) = zip a b ! i}"
    by (simp add: count_list_eq_length_filter length_filter_conv_card)
  also have "\<dots> = card {i. i < length b \<and> b ! i = c \<and> a ! i = l}"
    using assms by (intro arg_cong[where f = card]) auto
  also have "\<dots> = votes_for a b c l"
    unfolding votes_for_def length_filter_conv_card
    by (intro arg_cong[where f = card]) auto
  finally show ?thesis .
qed


lemma mapM_rel:
  assumes "\<And>x. x \<in> set xs \<Longrightarrow> \<exists>y. f x = Inr y \<and> P x y"
  shows "\<exists>ys. mapM f xs = Inr ys \<and> list_all2 P xs ys"
  using assms
proof (induction xs)
  case Nil
  then show ?case by simp
next
  case (Cons x xs)
  then obtain y where y: "f x = Inr y" "P x y" by auto
  from Cons obtain ys where ys: "mapM f xs = Inr ys" "list_all2 P xs ys" by auto
  show ?case using y ys by auto
qed

lemma votes_for_pos:
  assumes "i < length b"
  shows "0 < votes_for a b (b ! i) (a ! i)"
proof -
  have "i \<in> set (filter (\<lambda>j. b ! j = b ! i \<and> a ! j = a ! i) [0..<length b])"
    using assms by simp
  then show ?thesis unfolding votes_for_def by (metis length_pos_if_in_set)
qed

lemma votes_for_zero:
  assumes "length a = length b" and "l \<notin> set a"
  shows "votes_for a b c l = 0"
proof -
  have "filter (\<lambda>i. b ! i = c \<and> a ! i = l) [0..<length b] = []"
    using assms by (auto simp: filter_empty_conv)
  then show ?thesis by (simp add: votes_for_def)
qed

lemma column_winner:
  fixes a b :: "'v::linorder list"
  assumes len: "length a = length b" and c: "c \<in> set b"
  shows "\<exists>k. argmax (map (\<lambda>r. count_list (zip a b) (r, c)) (np_unique a)) = Inr k \<and>
             k < length (np_unique a) \<and> wins a b c (np_unique a ! k)"
proof -
  define rs where "rs = np_unique a"
  define col where "col = map (\<lambda>r. count_list (zip a b) (r, c)) rs"
  have rs_set: "set rs = set a" and rs_sorted: "sorted rs"
    by (simp_all add: np_unique_def rs_def)
  obtain i where i: "i < length b" "b ! i = c" using c by (auto simp: in_set_conv_nth)
  have ai: "a ! i \<in> set a" using i len by simp
  then have "rs \<noteq> []" using rs_set by auto
  then have ne: "col \<noteq> []" by (simp add: col_def)
  from argmax_first[OF ne] obtain k where
    "argmax col = Inr k \<and> k < length col \<and>
       (\<forall>j<length col. col ! j \<le> col ! k) \<and> (\<forall>j<k. col ! j \<noteq> col ! k)" ..
  then have k: "argmax col = Inr k" "k < length col"
    "\<forall>j<length col. col ! j \<le> col ! k" "\<forall>j<k. col ! j \<noteq> col ! k"
    by simp_all
  let ?w = "rs ! k"
  have kl: "k < length rs" using k(2) by (simp add: col_def)
  have colv: "col ! j = votes_for a b c (rs ! j)" if "j < length rs" for j
    using that by (simp add: col_def count_zip_votes[OF len])
  have max_rs: "votes_for a b c l \<le> votes_for a b c ?w" if "l \<in> set a" for l
  proof -
    have "l \<in> set rs" using that rs_set by simp
    then obtain j where j: "j < length rs" "rs ! j = l"
      by (auto simp: in_set_conv_nth)
    have "col ! j \<le> col ! k" using k(3) j(1) by (simp add: col_def)
    then show ?thesis using j colv[of j] colv[OF kl] by simp
  qed
  have pos: "0 < votes_for a b c ?w"
    using votes_for_pos[OF i(1), of a] max_rs[OF ai] i(2) by simp
  have max_all: "votes_for a b c l \<le> votes_for a b c ?w" for l
    using max_rs[of l] votes_for_zero[OF len, of l c] by (cases "l \<in> set a") auto
  have least: "?w \<le> l" if eq: "votes_for a b c l = votes_for a b c ?w" for l
  proof -
    have "l \<in> set a" using eq pos votes_for_zero[OF len, of l c] by (cases "l \<in> set a") auto
    then have "l \<in> set rs" using rs_set by simp
    then obtain j where j: "j < length rs" "rs ! j = l"
      by (auto simp: in_set_conv_nth)
    have "\<not> j < k"
    proof
      assume "j < k"
      then have "col ! j \<noteq> col ! k" using k(4) by simp
      then show False using colv[OF j(1)] colv[OF kl] j(2) eq by simp
    qed
    then have "k \<le> j" by simp
    then show ?thesis using rs_sorted j sorted_nth_mono by blast
  qed
  have "wins a b c ?w" unfolding wins_def using max_all least by simp
  then have "argmax col = Inr k \<and> k < length rs \<and> wins a b c (rs ! k)"
    using k(1) kl by simp
  then show ?thesis unfolding col_def rs_def by (rule exI)
qed

lemma filter_same_label:
  assumes "distinct xs" and "i < length xs"
  shows "filter (\<lambda>j. xs ! j = xs ! i) [0..<length xs] = [i]"
proof -
  have "filter (\<lambda>j. xs ! j = xs ! i) [0..<length xs] = filter (\<lambda>j. j = i) [0..<length xs]"
    using assms by (intro filter_cong) (auto simp: nth_eq_iff_index_eq)
  also have "\<dots> = [i]"
  proof -
    have "filter (\<lambda>j. j = i) [0..<n] = (if i < n then [i] else [])" for n
      by (induction n) auto
    then show ?thesis using assms(2) by simp
  qed
  finally show ?thesis .
qed

lemma join_pairs:
  assumes "distinct xs"
  shows "concat (map (\<lambda>i. map (\<lambda>j. (i, j)) (filter (\<lambda>j. xs ! j = xs ! i) [0..<length xs]))
                     [0..<length xs]) = map (\<lambda>i. (i, i)) [0..<length xs]"
proof -
  have "map (\<lambda>i. map (\<lambda>j. (i, j)) (filter (\<lambda>j. xs ! j = xs ! i) [0..<length xs])) [0..<length xs]
        = map (\<lambda>i. [(i, i)]) [0..<length xs]"
    using filter_same_label[OF assms] by (intro map_cong) auto
  then have "concat (map (\<lambda>i. map (\<lambda>j. (i, j)) (filter (\<lambda>j. xs ! j = xs ! i) [0..<length xs]))
                     [0..<length xs]) = concat (map (\<lambda>i. [(i, i)]) [0..<length xs])"
    by (rule arg_cong)
  also have "\<dots> = map (\<lambda>i. (i, i)) [0..<length xs]" by simp
  finally show ?thesis .
qed

lemma reindex_column:
  assumes "length vs = n"
  shows "map (\<lambda>(i, j). vs ! i) (map (\<lambda>i. (i, i)) [0..<n]) = vs"
    and "map (\<lambda>(i, j). vs ! j) (map (\<lambda>i. (i, i)) [0..<n]) = vs"
  using assms by (auto simp: comp_def map_nth)

lemma reindex_columns:
  assumes "\<forall>(n, vs) \<in> set cols. length vs = m"
  shows "map (\<lambda>(n, vs). (n, map (\<lambda>(i, j). vs ! i) (map (\<lambda>i. (i, i)) [0..<m]))) cols = cols"
    and "map (\<lambda>(n, vs). (n, map (\<lambda>(i, j). vs ! j) (map (\<lambda>i. (i, i)) [0..<m]))) cols = cols"
  using assms by (induction cols) (auto simp: comp_def map_nth)

lemma join_same_index:
  assumes "distinct (index l)" and "index r = index l"
    and "rectangular l" and "rectangular r"
    and "fst ` set (columns l) \<inter> fst ` set (columns r) = {}"
  shows "join l r = Inr \<lparr>index = index l, columns = columns l @ columns r\<rparr>"
proof -
  have no: "\<not> (\<exists>n \<in> set (map fst (columns l)). n \<in> set (map fst (columns r)))"
    using assms(5) by auto
  have cl: "\<forall>(n, vs) \<in> set (columns l). length vs = length (index l)"
    using assms(3) by (simp add: rectangular_def)
  have cr: "\<forall>(n, vs) \<in> set (columns r). length vs = length (index l)"
    using assms(4) assms(2) by (simp add: rectangular_def)
  have idx: "map (\<lambda>(i, j). index l ! i) (map (\<lambda>i. (i, i)) [0..<length (index l)]) = index l"
    by (simp add: comp_def map_nth)
  show ?thesis
    unfolding join_def using no
    by (simp add: assms(2) join_pairs[OF assms(1)] reindex_columns(1)[OF cl]
        reindex_columns(2)[OF cr] idx del: map_map)
qed

lemma idxmax_crosstab:
  fixes a b :: "'v::linorder list"
  assumes len: "length a = length b"
  shows "\<exists>t ws. crosstab a b = Inr t \<and> idxmax t = Inr ws \<and>
           fst ` set ws = set b \<and> (\<forall>(c, w) \<in> set ws. wins a b c w)"
proof -
  define rs where "rs = np_unique a"
  define cs where "cs = np_unique b"
  define t where "t = \<lparr>row_labels = rs, col_labels = cs,
                  counts = map (\<lambda>r. map (\<lambda>c. count_list (zip a b) (r, c)) cs) rs\<rparr>"
  have ct: "crosstab a b = Inr t"
    using len by (simp add: crosstab_def t_def rs_def cs_def Let_def)
  have cs_set: "set cs = set b" by (simp add: cs_def np_unique_def)
  define f where "f = (\<lambda>j. case argmax (map (\<lambda>row. row ! j) (counts t)) of
                  Inl e \<Rightarrow> Inl e
                | Inr k \<Rightarrow> Inr (col_labels t ! j, row_labels t ! k))"
  define P where "P = (\<lambda>j (y :: 'v \<times> 'v). fst y = cs ! j \<and> wins a b (cs ! j) (snd y))"
  have step: "\<exists>y. f j = Inr y \<and> P j y" if "j \<in> set [0..<length cs]" for j
  proof -
    have j: "j < length cs" using that by simp
    then have "cs ! j \<in> set b" using cs_set nth_mem by blast
    from column_winner[OF len this] obtain k where
      k: "argmax (map (\<lambda>r. count_list (zip a b) (r, cs ! j)) (np_unique a)) = Inr k \<and>
          k < length (np_unique a) \<and> wins a b (cs ! j) (np_unique a ! k)" ..
    have cm: "map (\<lambda>row. row ! j) (counts t) = map (\<lambda>r. count_list (zip a b) (r, cs ! j)) rs"
      using j by (simp add: t_def)
    have rl: "row_labels t = rs" "col_labels t = cs" by (simp_all add: t_def)
    have "f j = Inr (cs ! j, rs ! k)"
      unfolding f_def cm rl using k by (simp add: rs_def)
    then show ?thesis using k by (simp add: P_def rs_def)
  qed
  from mapM_rel[of "[0..<length cs]" f P, OF step] obtain ws where
    ws: "mapM f [0..<length cs] = Inr ws" "list_all2 P [0..<length cs] ws" by blast
  have cl: "col_labels t = cs" by (simp add: t_def)
  have "idxmax t = mapM f [0..<length (col_labels t)]"
    by (simp only: idxmax_def f_def)
  then have idm: "idxmax t = Inr ws"
    using ws(1) by (simp only: cl)
  have lw: "length ws = length cs" using list_all2_lengthD[OF ws(2)] by simp
  have at: "fst (ws ! j) = cs ! j \<and> wins a b (cs ! j) (snd (ws ! j))" if "j < length cs" for j
    using list_all2_nthD[OF ws(2), of j] that by (simp add: P_def)
  have "map fst ws = cs"
    using lw at by (intro nth_equalityI) auto
  then have fs: "fst ` set ws = set b" using cs_set by (metis set_map)
  have wn: "\<forall>(c, w) \<in> set ws. wins a b c w"
  proof safe
    fix c w assume "(c, w) \<in> set ws"
    then obtain j where "j < length ws" "ws ! j = (c, w)" by (auto simp: in_set_conv_nth)
    then show "wins a b c w" using at[of j] lw by simp
  qed
  show ?thesis using ct idm fs wn by blast
qed

lemma getitems_winners:
  assumes "fst ` set ws = set b" and "\<forall>(c, w) \<in> set ws. wins a b c w"
  shows "\<exists>mv. getitems ws b = Inr mv \<and> list_all2 (wins a b) b mv"
  unfolding getitems_def
proof (rule mapM_rel)
  fix c assume "c \<in> set b"
  then have "c \<in> fst ` set ws" using assms(1) by simp
  then obtain w where w: "map_of ws c = Some w"
    by (metis map_of_eq_None_iff not_Some_eq)
  then have "(c, w) \<in> set ws" by (rule map_of_SomeD)
  then have "wins a b c w" using assms(2) by auto
  then show "\<exists>y. (case map_of ws c of None \<Rightarrow> Inl (KeyError ''label not in index'')
                    | Some v \<Rightarrow> Inr v) = Inr y \<and> wins a b c y"
    using w by simp
qed

lemma majority_vote_result:
  fixes h :: "'v::linorder store"
  assumes col: "get_column (predicted_labels (h p)) ''predicted_labels'' = Inr labels"
    and len: "length oc = length labels"
    and rect: "rectangular (predicted_labels (h p))"
    and dist: "distinct (index (predicted_labels (h p)))"
    and fresh: "''over_clustering'' \<notin> fst ` set (columns (predicted_labels (h p)))"
               "''majority_voting'' \<notin> fst ` set (columns (predicted_labels (h p)))"
  shows "\<exists>mv. majority_vote h p oc =
            Inr (h(p := (h p)\<lparr>predicted_labels :=
                   \<lparr>index = index (predicted_labels (h p)),
                    columns = columns (predicted_labels (h p)) @
                      [(''over_clustering'', oc), (''majority_voting'', mv)]\<rparr>\<rparr>), p) \<and>
            list_all2 (wins labels oc) oc mv"
proof -
  define df where "df = predicted_labels (h p)"
  have "map_of (columns df) ''predicted_labels'' = Some labels"
    using col by (auto simp: get_column_def df_def split: option.splits)
  then have "(''predicted_labels'', labels) \<in> set (columns df)" by (rule map_of_SomeD)
  then have ll: "length labels = length (index df)"
    using rect by (auto simp: rectangular_def df_def)
  from idxmax_crosstab[OF len[symmetric]] obtain t ws where
    tw: "crosstab labels oc = Inr t" "idxmax t = Inr ws" "fst ` set ws = set oc"
        "\<forall>(c, w) \<in> set ws. wins labels oc c w" by blast
  from getitems_winners[OF tw(3) tw(4)] obtain mv where
    mv: "getitems ws oc = Inr mv" "list_all2 (wins labels oc) oc mv" by blast
  have lmv: "length mv = length oc" using mv(2) by (simp add: list_all2_lengthD)
  define r where "r = \<lparr>index = index df,
                       columns = [(''over_clustering'', oc), (''majority_voting'', mv)]\<rparr>"
  have "join df r = Inr \<lparr>index = index df, columns = columns df @ columns r\<rparr>"
  proof (rule join_same_index)
    show "distinct (index df)" using dist by (simp add: df_def)
    show "index r = index df" by (simp add: r_def)
    show "rectangular df" using rect by (simp add: df_def)
    show "rectangular r" using lmv len ll by (simp add: rectangular_def r_def)
    show "fst ` set (columns df) \<inter> fst ` set (columns r) = {}"
      using fresh by (auto simp: r_def df_def)
  qed
  then have jn: "join df \<lparr>index = index df,
                         columns = [(''over_clustering'', oc), (''majority_voting'', mv)]\<rparr> =
      Inr \<lparr>index = index df,
           columns = columns df @ [(''over_clustering'', oc), (''majority_voting'', mv)]\<rparr>"
    by (simp add: r_def)
  have "majority_vote h p oc =
            Inr (h(p := (h p)\<lparr>predicted_labels :=
                   \<lparr>index = index df,
                    columns = columns df @
                      [(''over_clustering'', oc), (''majority_voting'', mv)]\<rparr>\<rparr>), p)"
    unfolding majority_vote_def
    using col tw(1) tw(2) mv(1) len ll jn by (simp add: df_def[symmetric] Let_def)
  then show ?thesis using mv(2) unfolding df_def by blast
qed


lemma wins_unique:
  assumes "wins labels clusters c w" and "wins labels clusters c w'"
  shows "w = w'"
proof -
  have "votes_for labels clusters c w = votes_for labels clusters c w'"
    using assms by (simp add: wins_def order_antisym)
  then show ?thesis using assms unfolding wins_def by (metis order_antisym)
qed

lemma get_new_column:
  assumes "name \<notin> fst ` set cols"
  shows "get_column \<lparr>index = idx, columns = cols @ [(other, xs), (name, ys)]\<rparr> name =
           (if other = name then Inr xs else Inr ys)"
proof -
  have "map_of cols name = None" using assms by (simp add: map_of_eq_None_iff)
  then show ?thesis by (simp add: get_column_def map_add_def)
qed

text \<open>
  C4. When \<^verbatim>\<open>majority_vote\<close> is given a partition with one cluster id per predicted
  label (over cells with distinct names, in a frame that does not yet hold the two result
  columns), it succeeds, and the column \<^verbatim>\<open>majority_voting\<close> gives every cell the
  winner of its cluster: no label has more votes among the cluster's predicted labels, and
  among the labels with as many votes it is the first in the order of the labels. Cells of
  one cluster receive the same label.
\<close>

theorem majority_vote_consensus:
  fixes h :: "'v::linorder store"
  assumes "get_column (predicted_labels (h p)) ''predicted_labels'' = Inr labels"
    and "length oc = length labels"
    and "rectangular (predicted_labels (h p))"
    and "distinct (index (predicted_labels (h p)))"
    and "''over_clustering'' \<notin> fst ` set (columns (predicted_labels (h p)))"
    and "''majority_voting'' \<notin> fst ` set (columns (predicted_labels (h p)))"
  shows "\<exists>h' mv. majority_vote h p oc = Inr (h', p) \<and>
           get_column (predicted_labels (h' p)) ''majority_voting'' = Inr mv \<and>
           length mv = length oc \<and>
           (\<forall>i<length oc.
              (\<forall>l. votes_for labels oc (oc ! i) l \<le> votes_for labels oc (oc ! i) (mv ! i)) \<and>
              (\<forall>l. votes_for labels oc (oc ! i) l = votes_for labels oc (oc ! i) (mv ! i)
                    \<longrightarrow> mv ! i \<le> l)) \<and>
           (\<forall>i<length oc. \<forall>j<length oc. oc ! i = oc ! j \<longrightarrow> mv ! i = mv ! j)"
proof -
  from majority_vote_result[of h p labels oc, OF assms] obtain mv where
    mv: "majority_vote h p oc =
            Inr (h(p := (h p)\<lparr>predicted_labels :=
                   \<lparr>index = index (predicted_labels (h p)),
                    columns = columns (predicted_labels (h p)) @
                      [(''over_clustering'', oc), (''majority_voting'', mv)]\<rparr>\<rparr>), p)"
        "list_all2 (wins labels oc) oc mv"
    by blast
  have len: "length mv = length oc" using list_all2_lengthD[OF mv(2)] by simp
  have w: "wins labels oc (oc ! i) (mv ! i)" if "i < length oc" for i
    using list_all2_nthD[OF mv(2) that] .
  have col: "get_column (predicted_labels
               ((h(p := (h p)\<lparr>predicted_labels :=
                   \<lparr>index = index (predicted_labels (h p)),
                    columns = columns (predicted_labels (h p)) @
                      [(''over_clustering'', oc), (''majority_voting'', mv)]\<rparr>\<rparr>)) p))
             ''majority_voting'' = Inr mv"
    using get_new_column[OF assms(6)] by simp
  have same: "mv ! i = mv ! j" if "i < length oc" "j < length oc" "oc ! i = oc ! j" for i j
    using wins_unique[OF w[OF that(1)]] w[OF that(2)] that(3) by simp
  have best: "(\<forall>l. votes_for labels oc (oc ! i) l \<le> votes_for labels oc (oc ! i) (mv ! i)) \<and>
              (\<forall>l. votes_for labels oc (oc ! i) l = votes_for labels oc (oc ! i) (mv ! i)
                    \<longrightarrow> mv ! i \<le> l)" if "i < length oc" for i
    using w[OF that] by (simp add: wins_def)
  show ?thesis using mv(1) col len best same by blast
qed

text \<open>
  The two examples of the specification, run on the model: one cluster with the predicted
  labels A, A, A, B gives A to all four cells, and the tied cluster A, A, B, B gives A to
  all four cells.
\<close>

lemma majority_vote_three_to_one:
  "map_sum id (\<lambda>(h', q). (get_column (predicted_labels (h' q)) ''majority_voting'', q))
     (majority_vote (\<lambda>r. example_result [''A'', ''A'', ''A'', ''B'']) 0
        [''7'', ''7'', ''7'', ''7'']) =
   Inr (Inr [''A'', ''A'', ''A'', ''A''], 0)"
  by (simp add: majority_vote_def example_result_def four_cells_def get_column_def
      crosstab_def np_unique_def idxmax_def argmax_def getitems_def join_def)

theorem majority_vote_consensus_witness:
  "get_column (predicted_labels (example_result [''A'', ''A'', ''B'', ''B'']))
     ''predicted_labels'' = Inr [''A'', ''A'', ''B'', ''B''] \<and>
   length [''7'', ''7'', ''7'', ''7''] = length [''A'', ''A'', ''B'', ''B''] \<and>
   rectangular (predicted_labels (example_result [''A'', ''A'', ''B'', ''B''])) \<and>
   distinct (index (predicted_labels (example_result [''A'', ''A'', ''B'', ''B'']))) \<and>
   map_sum id (\<lambda>(h', q). (get_column (predicted_labels (h' q)) ''majority_voting'', q))
     (majority_vote (\<lambda>r. example_result [''A'', ''A'', ''B'', ''B'']) 0
        [''7'', ''7'', ''7'', ''7'']) =
   Inr (Inr [''A'', ''A'', ''A'', ''A''], 0) \<and>
   (\<exists>h' mv. majority_vote (\<lambda>r. example_result [''A'', ''A'', ''B'', ''B'']) 0
               [''7'', ''7'', ''7'', ''7''] = Inr (h', 0) \<and>
      get_column (predicted_labels (h' 0)) ''majority_voting'' = Inr mv \<and>
      (\<forall>i<4. \<forall>l. votes_for [''A'', ''A'', ''B'', ''B''] [''7'', ''7'', ''7'', ''7'']
                      ([''7'', ''7'', ''7'', ''7''] ! i) l
                  \<le> votes_for [''A'', ''A'', ''B'', ''B''] [''7'', ''7'', ''7'', ''7'']
                      ([''7'', ''7'', ''7'', ''7''] ! i) (mv ! i)))"
proof -
  let ?h = "\<lambda>r::ref. example_result [''A'', ''A'', ''B'', ''B'']"
  have 1: "get_column (predicted_labels (?h 0)) ''predicted_labels'' =
             Inr [''A'', ''A'', ''B'', ''B'']"
    by (simp add: example_result_def get_column_def)
  have 2: "length [''7'', ''7'', ''7'', ''7''] = length [''A'', ''A'', ''B'', ''B'']" by simp
  have 3: "rectangular (predicted_labels (?h 0))"
    by (simp add: example_result_def rectangular_def four_cells_def)
  have 4: "distinct (index (predicted_labels (?h 0)))"
    by (simp add: example_result_def four_cells_def)
  have 5: "''over_clustering'' \<notin> fst ` set (columns (predicted_labels (?h 0)))"
    by (simp add: example_result_def)
  have 6: "''majority_voting'' \<notin> fst ` set (columns (predicted_labels (?h 0)))"
    by (simp add: example_result_def)
  have run: "map_sum id (\<lambda>(h', q). (get_column (predicted_labels (h' q)) ''majority_voting'', q))
     (majority_vote ?h 0 [''7'', ''7'', ''7'', ''7'']) = Inr (Inr [''A'', ''A'', ''A'', ''A''], 0)"
    by (simp add: majority_vote_def example_result_def four_cells_def get_column_def
        crosstab_def np_unique_def idxmax_def argmax_def getitems_def join_def)
  from majority_vote_consensus[of ?h 0 "[''A'', ''A'', ''B'', ''B'']" "[''7'', ''7'', ''7'', ''7'']",
      OF 1 2 3 4 5 6]
  obtain h' mv where r: "majority_vote ?h 0 [''7'', ''7'', ''7'', ''7''] = Inr (h', 0)"
      "get_column (predicted_labels (h' 0)) ''majority_voting'' = Inr mv"
      "\<forall>i<length [''7'', ''7'', ''7'', ''7''].
              (\<forall>l. votes_for [''A'', ''A'', ''B'', ''B''] [''7'', ''7'', ''7'', ''7'']
                      ([''7'', ''7'', ''7'', ''7''] ! i) l
                  \<le> votes_for [''A'', ''A'', ''B'', ''B''] [''7'', ''7'', ''7'', ''7'']
                      ([''7'', ''7'', ''7'', ''7''] ! i) (mv ! i))"
    by blast
  have "\<forall>i<4. \<forall>l. votes_for [''A'', ''A'', ''B'', ''B''] [''7'', ''7'', ''7'', ''7'']
                      ([''7'', ''7'', ''7'', ''7''] ! i) l
                  \<le> votes_for [''A'', ''A'', ''B'', ''B''] [''7'', ''7'', ''7'', ''7'']
                      ([''7'', ''7'', ''7'', ''7''] ! i) (mv ! i)"
    using r(3) by simp
  then show ?thesis using 1 2 3 4 run r(1) r(2) by blast
qed

text \<open>
  C8. When the partition's length differs from the number of predicted labels,
  \<^verbatim>\<open>majority_vote\<close> fails: \<^verbatim>\<open>pd.crosstab\<close> (line 341) raises the ValueError for
  values that do not match the length of the index, which is the specification's
  LengthMismatchError. Nothing has been changed at that point.
\<close>

theorem majority_vote_length_mismatch:
  assumes "get_column (predicted_labels (h p)) ''predicted_labels'' = Inr labels"
    and "length oc \<noteq> length labels"
  shows "majority_vote h p oc =
           Inl (ValueError ''Length of values does not match length of index'')"
  using assms by (simp add: majority_vote_def crosstab_def)

theorem majority_vote_length_mismatch_witness:
  "get_column (predicted_labels (example_result [''A'', ''A'', ''A'', ''B'']))
     ''predicted_labels'' = Inr [''A'', ''A'', ''A'', ''B''] \<and>
   length [''7'', ''7'', ''8''] \<noteq> length [''A'', ''A'', ''A'', ''B''] \<and>
   majority_vote (\<lambda>r. example_result [''A'', ''A'', ''A'', ''B'']) 0 [''7'', ''7'', ''8''] =
     Inl (ValueError ''Length of values does not match length of index'')"
proof -
  let ?h = "\<lambda>r::ref. example_result [''A'', ''A'', ''A'', ''B'']"
  have 1: "get_column (predicted_labels (?h 0)) ''predicted_labels'' =
             Inr [''A'', ''A'', ''A'', ''B'']"
    by (simp add: example_result_def get_column_def)
  have 2: "length [''7'', ''7'', ''8''] \<noteq> length [''A'', ''A'', ''A'', ''B'']" by simp
  show ?thesis
    using 1 2 majority_vote_length_mismatch[of ?h 0 "[''A'', ''A'', ''A'', ''B'']"
        "[''7'', ''7'', ''8'']", OF 1 2]
    by simp
qed

text \<open>
  C10. A successful \<^verbatim>\<open>majority_vote\<close> returns the reference it was given; in the store
  only that object has changed, and of it only \<^verbatim>\<open>predicted_labels\<close>: the frame keeps
  its index and its columns and gains, after them, exactly the columns
  \<^verbatim>\<open>over_clustering\<close> (the partition) and \<^verbatim>\<open>majority_voting\<close>.
  \<^verbatim>\<open>probability_table\<close>, \<^verbatim>\<open>adata\<close> and \<^verbatim>\<open>cell_count\<close> are as before.
\<close>

theorem majority_vote_in_place:
  fixes h :: "'v::linorder store"
  assumes "get_column (predicted_labels (h p)) ''predicted_labels'' = Inr labels"
    and "length oc = length labels"
    and "rectangular (predicted_labels (h p))"
    and "distinct (index (predicted_labels (h p)))"
    and "''over_clustering'' \<notin> fst ` set (columns (predicted_labels (h p)))"
    and "''majority_voting'' \<notin> fst ` set (columns (predicted_labels (h p)))"
  shows "\<exists>h' mv. majority_vote h p oc = Inr (h', p) \<and>
           (\<forall>q. q \<noteq> p \<longrightarrow> h' q = h q) \<and>
           probability_table (h' p) = probability_table (h p) \<and>
           adata (h' p) = adata (h p) \<and>
           cell_count (h' p) = cell_count (h p) \<and>
           index (predicted_labels (h' p)) = index (predicted_labels (h p)) \<and>
           columns (predicted_labels (h' p)) =
             columns (predicted_labels (h p)) @
               [(''over_clustering'', oc), (''majority_voting'', mv)] \<and>
           length mv = length oc"
proof -
  from majority_vote_result[of h p labels oc, OF assms] obtain mv where
    mv: "majority_vote h p oc =
            Inr (h(p := (h p)\<lparr>predicted_labels :=
                   \<lparr>index = index (predicted_labels (h p)),
                    columns = columns (predicted_labels (h p)) @
                      [(''over_clustering'', oc), (''majority_voting'', mv)]\<rparr>\<rparr>), p)"
        "list_all2 (wins labels oc) oc mv"
    by blast
  have len: "length mv = length oc" using list_all2_lengthD[OF mv(2)] by simp
  show ?thesis
    by (rule exI[of _ "h(p := (h p)\<lparr>predicted_labels :=
                   \<lparr>index = index (predicted_labels (h p)),
                    columns = columns (predicted_labels (h p)) @
                      [(''over_clustering'', oc), (''majority_voting'', mv)]\<rparr>\<rparr>)"],
        rule exI[of _ mv]) (simp add: mv(1) len)
qed

theorem majority_vote_in_place_witness:
  "get_column (predicted_labels (example_result [''A'', ''B'', ''B'', ''C'']))
     ''predicted_labels'' = Inr [''A'', ''B'', ''B'', ''C''] \<and>
   length [''1'', ''1'', ''2'', ''2''] = length [''A'', ''B'', ''B'', ''C''] \<and>
   rectangular (predicted_labels (example_result [''A'', ''B'', ''B'', ''C''])) \<and>
   distinct (index (predicted_labels (example_result [''A'', ''B'', ''B'', ''C'']))) \<and>
   (\<exists>h' mv. majority_vote (\<lambda>r. example_result [''A'', ''B'', ''B'', ''C'']) 0
               [''1'', ''1'', ''2'', ''2''] = Inr (h', 0) \<and>
      probability_table (h' 0) =
        probability_table (example_result [''A'', ''B'', ''B'', ''C'']) \<and>
      adata (h' 0) = adata (example_result [''A'', ''B'', ''B'', ''C'']) \<and>
      cell_count (h' 0) = 4 \<and>
      index (predicted_labels (h' 0)) = four_cells \<and>
      columns (predicted_labels (h' 0)) =
        [(''predicted_labels'', [''A'', ''B'', ''B'', ''C'']),
         (''over_clustering'', [''1'', ''1'', ''2'', ''2'']),
         (''majority_voting'', mv)])"
proof -
  let ?h = "\<lambda>r::ref. example_result [''A'', ''B'', ''B'', ''C'']"
  have 1: "get_column (predicted_labels (?h 0)) ''predicted_labels'' =
             Inr [''A'', ''B'', ''B'', ''C'']"
    by (simp add: example_result_def get_column_def)
  have 2: "length [''1'', ''1'', ''2'', ''2''] = length [''A'', ''B'', ''B'', ''C'']" by simp
  have 3: "rectangular (predicted_labels (?h 0))"
    by (simp add: example_result_def rectangular_def four_cells_def)
  have 4: "distinct (index (predicted_labels (?h 0)))"
    by (simp add: example_result_def four_cells_def)
  have 5: "''over_clustering'' \<notin> fst ` set (columns (predicted_labels (?h 0)))"
    by (simp add: example_result_def)
  have 6: "''majority_voting'' \<notin> fst ` set (columns (predicted_labels (?h 0)))"
    by (simp add: example_result_def)
  from majority_vote_in_place[of ?h 0 "[''A'', ''B'', ''B'', ''C'']" "[''1'', ''1'', ''2'', ''2'']",
      OF 1 2 3 4 5 6]
  obtain h' mv where r: "majority_vote ?h 0 [''1'', ''1'', ''2'', ''2''] = Inr (h', 0)"
      "probability_table (h' 0) = probability_table (?h 0)"
      "adata (h' 0) = adata (?h 0)"
      "cell_count (h' 0) = cell_count (?h 0)"
      "index (predicted_labels (h' 0)) = index (predicted_labels (?h 0))"
      "columns (predicted_labels (h' 0)) =
             columns (predicted_labels (?h 0)) @
               [(''over_clustering'', [''1'', ''1'', ''2'', ''2'']), (''majority_voting'', mv)]"
    by blast
  have a: "cell_count (h' 0) = 4" using r(4) by (simp add: example_result_def)
  have b: "index (predicted_labels (h' 0)) = four_cells"
    using r(5) by (simp add: example_result_def)
  have c: "columns (predicted_labels (h' 0)) =
        [(''predicted_labels'', [''A'', ''B'', ''B'', ''C'']),
         (''over_clustering'', [''1'', ''1'', ''2'', ''2'']),
         (''majority_voting'', mv)]"
    using r(6) by (simp add: example_result_def)
  show ?thesis using 1 2 3 4 r(1) r(2) r(3) a b c by blast
qed

subsection \<open>Feature alignment and scaling\<close>


lemma mapM_Inr_iff:
  "mapM f xs = Inr ys \<longleftrightarrow> list_all2 (\<lambda>x y. f x = Inr y) xs ys"
proof (induction xs arbitrary: ys)
  case Nil
  then show ?case by auto
next
  case (Cons x xs)
  show ?case by (cases ys) (auto simp: Cons.IH[symmetric] split: sum.splits)
qed

lemma take_idx_Inr:
  "take_idx xs idx = Inr ys \<longleftrightarrow> (\<forall>i \<in> set idx. i < length xs) \<and> ys = map (\<lambda>i. xs ! i) idx"
proof -
  have "list_all2 (\<lambda>i y. (if i < length xs then Inr (xs ! i)
            else Inl (IndexError ''index out of bounds'')) = Inr y) idx ys
        \<longleftrightarrow> (\<forall>i \<in> set idx. i < length xs) \<and> ys = map (\<lambda>i. xs ! i) idx"
  proof (induction idx arbitrary: ys)
    case Nil
    then show ?case by auto
  next
    case (Cons i idx)
    then show ?case by (cases ys) (auto split: if_splits)
  qed
  then show ?thesis by (simp add: take_idx_def mapM_Inr_iff)
qed

lemma take_idx_ok:
  assumes "\<forall>i \<in> set idx. i < length xs"
  shows "take_idx xs idx = Inr (map (\<lambda>i. xs ! i) idx)"
  using assms by (simp add: take_idx_Inr)

lemma take_cols_Inr:
  "take_cols m idx = Inr m' \<longleftrightarrow>
     (\<forall>row \<in> set m. \<forall>i \<in> set idx. i < length row) \<and> m' = map (\<lambda>row. map (\<lambda>i. row ! i) idx) m"
proof -
  have "list_all2 (\<lambda>row y. take_idx row idx = Inr y) m m'
        \<longleftrightarrow> (\<forall>row \<in> set m. \<forall>i \<in> set idx. i < length row) \<and>
            m' = map (\<lambda>row. map (\<lambda>i. row ! i) idx) m"
  proof (induction m arbitrary: m')
    case Nil
    then show ?case by auto
  next
    case (Cons row m)
    then show ?case by (cases m') (auto simp: take_idx_Inr)
  qed
  then show ?thesis by (simp add: take_cols_def mapM_Inr_iff)
qed

lemma where_true_isin:
  "where_true (isin genes feats) = filter (\<lambda>i. genes ! i \<in> set feats) [0..<length genes]"
  by (auto simp: where_true_def isin_def intro: filter_cong)

lemma kept_genes:
  "map (\<lambda>i. genes ! i) (filter (\<lambda>i. genes ! i \<in> set feats) [0..<length genes]) =
     filter (\<lambda>g. g \<in> set feats) genes"
proof -
  have "map (\<lambda>i. genes ! i) (filter ((\<lambda>g. g \<in> set feats) \<circ> (\<lambda>i. genes ! i)) [0..<length genes]) =
        filter (\<lambda>g. g \<in> set feats) (map (\<lambda>i. genes ! i) [0..<length genes])"
    by (simp only: filter_map)
  then show ?thesis by (simp add: comp_def map_nth)
qed

lemma loc_positions_Inr:
  assumes "loc_positions feats genes = Inr lr"
  shows "lr = concat (map (\<lambda>g. filter (\<lambda>i. feats ! i = g) [0..<length feats]) genes)"
proof -
  obtain ps where ps: "mapM (\<lambda>g. case filter (\<lambda>i. feats ! i = g) [0..<length feats] of
                        [] \<Rightarrow> Inl (KeyError ''not in index'')
                      | i # is \<Rightarrow> Inr (i # is)) genes = Inr ps" and lr: "lr = concat ps"
    using assms by (auto simp: loc_positions_def split: sum.splits)
  have "list_all2 (\<lambda>g y. y = filter (\<lambda>i. feats ! i = g) [0..<length feats]) genes ps"
    using ps unfolding mapM_Inr_iff
    by (rule list_all2_mono) (auto split: list.splits)
  then have "ps = map (\<lambda>g. filter (\<lambda>i. feats ! i = g) [0..<length feats]) genes"
    by (induction rule: list_all2_induct) auto
  then show ?thesis using lr by simp
qed

lemma loc_positions_ok:
  assumes "set genes \<subseteq> set feats"
  shows "loc_positions feats genes =
           Inr (concat (map (\<lambda>g. filter (\<lambda>i. feats ! i = g) [0..<length feats]) genes))"
proof -
  have ne: "filter (\<lambda>i. feats ! i = g) [0..<length feats] \<noteq> []" if "g \<in> set genes" for g
  proof -
    have "g \<in> set feats" using that assms by auto
    then obtain i where "i < length feats" "feats ! i = g" by (auto simp: in_set_conv_nth)
    then have "i \<in> set (filter (\<lambda>i. feats ! i = g) [0..<length feats])" by simp
    then show ?thesis by (metis empty_iff empty_set)
  qed
  have "mapM (\<lambda>g. case filter (\<lambda>i. feats ! i = g) [0..<length feats] of
                        [] \<Rightarrow> Inl (KeyError ''not in index'')
                      | i # is \<Rightarrow> Inr (i # is)) genes =
        Inr (map (\<lambda>g. filter (\<lambda>i. feats ! i = g) [0..<length feats]) genes)"
    using ne by (intro mapM_total) (auto split: list.splits)
  then show ?thesis by (simp add: loc_positions_def)
qed

lemma positions_distinct:
  assumes "distinct feats" and "g \<in> set feats"
  shows "filter (\<lambda>i. feats ! i = g) [0..<length feats] = [position feats g]"
    and "position feats g < length feats" and "feats ! position feats g = g"
proof -
  obtain i where i: "i < length feats" "feats ! i = g"
    using assms(2) by (auto simp: in_set_conv_nth)
  have f: "filter (\<lambda>j. feats ! j = g) [0..<length feats] = [i]"
    using filter_same_label[OF assms(1) i(1)] i(2) by simp
  then have "position feats g = i" by (simp add: position_def)
  then show "filter (\<lambda>i. feats ! i = g) [0..<length feats] = [position feats g]"
    and "position feats g < length feats" and "feats ! position feats g = g"
    using f i by simp_all
qed

lemma lr_positions_distinct:
  assumes "distinct feats"
  shows "lr_positions feats genes = map (position feats) (filter (\<lambda>g. g \<in> set feats) genes)"
proof -
  have "map (\<lambda>g. filter (\<lambda>i. feats ! i = g) [0..<length feats]) (filter (\<lambda>g. g \<in> set feats) genes)
        = map (\<lambda>g. [position feats g]) (filter (\<lambda>g. g \<in> set feats) genes)"
    using positions_distinct(1)[OF assms] by (intro map_cong) auto
  then have "lr_positions feats genes =
      concat (map (\<lambda>g. [position feats g]) (filter (\<lambda>g. g \<in> set feats) genes))"
    unfolding lr_positions_def by (rule arg_cong)
  then show ?thesis by simp
qed


lemma broadcast_same:
  assumes "length v = k"
  shows "broadcast f k m v = Inr (k, map (\<lambda>row. map (\<lambda>(x, y). f x y) (zip row v)) m)"
  using assms by (simp add: broadcast_def)

lemma zip_map_same:
  "map (\<lambda>(x, y). f x y) (zip (map a idx) (map b idx)) = map (\<lambda>i. f (a i) (b i)) idx"
  by (induction idx) auto

lemma match_and_scale_well_formed:
  assumes wf: "well_formed self"
  defines "feats \<equiv> features (classifier (model self))"
    and "genes \<equiv> indata_genes self"
  defines "idx \<equiv> filter (\<lambda>i. genes ! i \<in> set feats) [0..<length genes]"
  defines "lr \<equiv> map (\<lambda>i. position feats (genes ! i)) idx"
  shows "match_and_scale self =
     Inr (self\<lparr>indata :=
                 map (\<lambda>row. map (\<lambda>i. clip10 ((row ! i - mean (scaler (model self)) ! position feats (genes ! i))
                                          / scale (scaler (model self)) ! position feats (genes ! i))) idx)
                     (indata self),
               indata_genes := filter (\<lambda>g. g \<in> set feats) genes,
               model := (model self)\<lparr>classifier := (classifier (model self))
                  \<lparr>n_features_in := length idx,
                   features := filter (\<lambda>g. g \<in> set feats) genes,
                   coef := map (\<lambda>row. map (\<lambda>i. row ! i) lr) (coef (classifier (model self)))\<rparr>\<rparr>\<rparr>)"
proof -
  let ?mu = "mean (scaler (model self))"
  let ?sd = "scale (scaler (model self))"
  have rows: "\<forall>row \<in> set (indata self). length row = length genes"
    and dist: "distinct feats"
    and lmu: "length ?mu = length feats" and lsd: "length ?sd = length feats"
    and lco: "\<forall>row \<in> set (coef (classifier (model self))). length row = length feats"
    using wf by (simp_all add: well_formed_def feats_def genes_def)
  have kx: "where_true (isin genes feats) = idx"
    by (simp add: where_true_isin idx_def)
  have idx_lt: "\<forall>i \<in> set idx. i < length genes" by (auto simp: idx_def)
  have idx_in: "\<forall>i \<in> set idx. genes ! i \<in> set feats" by (auto simp: idx_def)
  have s1: "take_cols (indata self) idx = Inr (map (\<lambda>row. map (\<lambda>i. row ! i) idx) (indata self))"
    using rows idx_lt by (simp add: take_cols_Inr)
  have kept: "map (\<lambda>i. genes ! i) idx = filter (\<lambda>g. g \<in> set feats) genes"
    unfolding idx_def by (rule kept_genes)
  have s2: "take_idx genes idx = Inr (filter (\<lambda>g. g \<in> set feats) genes)"
    using take_idx_ok[of idx genes] idx_lt kept by simp
  have "lr_positions feats genes = map (position feats) (filter (\<lambda>g. g \<in> set feats) genes)"
    by (rule lr_positions_distinct[OF dist])
  also have "\<dots> = lr" unfolding lr_def kept[symmetric] by (simp add: comp_def)
  finally have lrp: "lr_positions feats genes = lr" .
  have s3: "loc_positions feats (filter (\<lambda>g. g \<in> set feats) genes) = Inr lr"
  proof -
    have "set (filter (\<lambda>g. g \<in> set feats) genes) \<subseteq> set feats" by auto
    from loc_positions_ok[OF this] show ?thesis
      using lrp by (simp add: lr_positions_def)
  qed
  have lr_lt: "\<forall>p \<in> set lr. p < length feats"
    using idx_in positions_distinct(2)[OF dist] by (auto simp: lr_def)
  have s4: "take_idx ?mu lr = Inr (map (\<lambda>p. ?mu ! p) lr)"
    using lr_lt lmu by (simp add: take_idx_ok)
  have s5: "take_idx ?sd lr = Inr (map (\<lambda>p. ?sd ! p) lr)"
    using lr_lt lsd by (simp add: take_idx_ok)
  have s6: "broadcast (-) (length idx) (map (\<lambda>row. map (\<lambda>i. row ! i) idx) (indata self))
              (map (\<lambda>p. ?mu ! p) lr) =
            Inr (length idx, map (\<lambda>row. map (\<lambda>i. row ! i - ?mu ! position feats (genes ! i)) idx)
                                 (indata self))"
    by (simp add: broadcast_same lr_def comp_def zip_map_same)
  have s7: "broadcast (/) (length idx)
              (map (\<lambda>row. map (\<lambda>i. row ! i - ?mu ! position feats (genes ! i)) idx) (indata self))
              (map (\<lambda>p. ?sd ! p) lr) =
            Inr (length idx,
                 map (\<lambda>row. map (\<lambda>i. (row ! i - ?mu ! position feats (genes ! i))
                                        / ?sd ! position feats (genes ! i)) idx)
                     (indata self))"
    by (simp add: broadcast_same lr_def comp_def zip_map_same)
  have "map (\<lambda>p. feats ! p) lr = map (\<lambda>i. genes ! i) idx"
    unfolding lr_def using idx_in positions_distinct(3)[OF dist] by simp
  then have s8: "take_idx feats lr = Inr (filter (\<lambda>g. g \<in> set feats) genes)"
    using take_idx_ok[of lr feats] lr_lt kept by simp
  have s9: "take_cols (coef (classifier (model self))) lr =
              Inr (map (\<lambda>row. map (\<lambda>i. row ! i) lr) (coef (classifier (model self))))"
    using lco lr_lt by (simp add: take_cols_Inr)
  have ll: "length lr = length idx" by (simp add: lr_def)
  show ?thesis
    unfolding match_and_scale_def Let_def feats_def[symmetric] genes_def[symmetric] kx
    by (simp add: s1 s2 s3 s4 s5 s6 s7 s8 s9 ll comp_def clip10_def)
qed


lemmas run_celltype =
  celltype_def match_and_scale_def example_input_def example_model_def isin_def where_true_def
  take_cols_def take_idx_def loc_positions_def broadcast_def predict_and_wrap_def
  predict_labels_and_prob_def decision_function_def argmax_def sigmoid_def Let_def

lemma match_and_scale_Inr:
  assumes "match_and_scale self = Inr self'"
  defines "lr \<equiv> lr_positions (features (classifier (model self))) (indata_genes self)"
  shows "scaler (model self') = scaler (model self)"
    and "description (model self') = description (model self)"
    and "intercept (classifier (model self')) = intercept (classifier (model self))"
    and "classes (classifier (model self')) = classes (classifier (model self))"
    and "features (classifier (model self')) = map (\<lambda>i. features (classifier (model self)) ! i) lr"
    and "coef (classifier (model self')) =
           map (\<lambda>row. map (\<lambda>i. row ! i) lr) (coef (classifier (model self)))"
    and "n_features_in (classifier (model self')) = length lr"
    and "indata_genes self' =
           filter (\<lambda>g. g \<in> set (features (classifier (model self)))) (indata_genes self)"
    and "self_adata self' = self_adata self"
proof -
  let ?feats = "features (classifier (model self))"
  let ?genes = "indata_genes self"
  let ?idx = "filter (\<lambda>i. ?genes ! i \<in> set ?feats) [0..<length ?genes]"
  from assms(1) obtain x1 genes1 lr_idx feats' coef' x3 where
    g1: "take_idx ?genes ?idx = Inr genes1"
    and l1: "loc_positions ?feats genes1 = Inr lr_idx"
    and f1: "take_idx ?feats lr_idx = Inr feats'"
    and c1: "take_cols (coef (classifier (model self))) lr_idx = Inr coef'"
    and s: "self' = self\<lparr>indata := x3, indata_genes := genes1,
                  model := (model self)\<lparr>classifier := (classifier (model self))
                    \<lparr>n_features_in := length lr_idx, features := feats', coef := coef'\<rparr>\<rparr>\<rparr>"
    unfolding match_and_scale_def Let_def where_true_isin
    by (auto split: sum.splits prod.splits)
  have "genes1 = map (\<lambda>i. ?genes ! i) ?idx" using g1 by (simp add: take_idx_Inr)
  then have genes1: "genes1 = filter (\<lambda>g. g \<in> set ?feats) ?genes" by (simp add: kept_genes)
  have lr_idx: "lr_idx = lr"
    using loc_positions_Inr[OF l1] genes1 by (simp add: lr_def lr_positions_def)
  have feats': "feats' = map (\<lambda>i. ?feats ! i) lr" using f1 lr_idx by (simp add: take_idx_Inr)
  have coef': "coef' = map (\<lambda>row. map (\<lambda>i. row ! i) lr) (coef (classifier (model self)))"
    using c1 lr_idx by (simp add: take_cols_Inr)
  show "scaler (model self') = scaler (model self)"
    and "description (model self') = description (model self)"
    and "intercept (classifier (model self')) = intercept (classifier (model self))"
    and "classes (classifier (model self')) = classes (classifier (model self))"
    and "features (classifier (model self')) = map (\<lambda>i. features (classifier (model self)) ! i) lr"
    and "coef (classifier (model self')) =
           map (\<lambda>row. map (\<lambda>i. row ! i) lr) (coef (classifier (model self)))"
    and "n_features_in (classifier (model self')) = length lr"
    and "indata_genes self' =
           filter (\<lambda>g. g \<in> set (features (classifier (model self)))) (indata_genes self)"
    and "self_adata self' = self_adata self"
    using s genes1 lr_idx feats' coef' by simp_all
qed

lemma predict_and_wrap_same:
  assumes "predict_and_wrap predict self = Inr (res, self')"
  shows "self' = self"
  using assms
  by (auto simp: predict_and_wrap_def Let_def split: sum.splits prod.splits if_splits)

lemma celltype_Inr:
  assumes "celltype predict self = Inr (res, self')"
  shows "match_and_scale self = Inr self'"
proof -
  from assms obtain s where s: "match_and_scale self = Inr s"
    and p: "predict_and_wrap predict s = Inr (res, self')"
    by (auto simp: celltype_def split: sum.splits)
  then show ?thesis using predict_and_wrap_same[OF p] by simp
qed

lemma match_and_scale_disjoint:
  assumes "set (indata_genes self) \<inter> set (features (classifier (model self))) = {}"
  shows "match_and_scale self =
     Inr (self\<lparr>indata := map (\<lambda>row. []) (indata self), indata_genes := [],
               model := (model self)\<lparr>classifier := (classifier (model self))
                  \<lparr>n_features_in := 0, features := [],
                   coef := map (\<lambda>row. []) (coef (classifier (model self)))\<rparr>\<rparr>\<rparr>)"
proof -
  have "filter (\<lambda>i. indata_genes self ! i \<in> set (features (classifier (model self))))
          [0..<length (indata_genes self)] = []"
  proof -
    have "indata_genes self ! i \<notin> set (features (classifier (model self)))"
      if "i < length (indata_genes self)" for i
      using assms nth_mem[OF that] by blast
    then show ?thesis by (auto simp: filter_empty_conv)
  qed
  then have kx: "where_true (isin (indata_genes self) (features (classifier (model self)))) = []"
    by (simp add: where_true_isin)
  have tc: "take_cols m [] = Inr (map (\<lambda>row. []) m)" for m :: "real list list"
    by (simp add: take_cols_Inr)
  have ti: "take_idx xs [] = Inr []" for xs :: "'x list"
    by (simp add: take_idx_Inr)
  have lp: "loc_positions xs [] = Inr []" for xs :: "string list"
    by (simp add: loc_positions_def)
  have bc: "broadcast f 0 m [] = Inr (0, map (\<lambda>row. []) m)" for f m
    by (simp add: broadcast_def)
  show ?thesis
    unfolding match_and_scale_def Let_def kx
    by (simp add: tc ti lp bc comp_def)
qed

text \<open>
  C1 as stated fails: \<open>celltype\<close> assigns to the attributes of the model's classifier
  (lines 258-260). With the example model (features CD19, CD3E) and an input that has CD3E
  and GAPDH, the call returns, and afterwards the model's classifier has the single feature
  CD3E, one column of weights and \<open>n_features_in = 1\<close>.
\<close>

theorem celltype_mutates_model_counterexample:
  "celltype predict_labels_and_prob (example_input [''CD3E'', ''GAPDH''] [2, 2]) =
     Inr (\<lparr>predicted_labels =
             \<lparr>index = [''cell1''], columns = [(''predicted_labels'', [''T cell''])]\<rparr>,
           probability_table =
             \<lparr>index = [''cell1''],
              columns = [(''B cell'', [1 / 2]), (''T cell'', [1 / (1 + exp (- 2))])]\<rparr>,
           cell_count = 1,
           adata = \<lparr>adata_X = [[3, 7]], var_names = [''CD3E'', ''GAPDH''],
                    obs_names = [''cell1''], raw = None\<rparr>\<rparr>,
          \<lparr>self_adata = \<lparr>adata_X = [[3, 7]], var_names = [''CD3E'', ''GAPDH''],
                         obs_names = [''cell1''], raw = None\<rparr>,
           indata = [[1]], indata_genes = [''CD3E''],
           model =
             \<lparr>classifier = \<lparr>features = [''CD3E''], coef = [[0], [2]], intercept = [0, 0],
                             classes = [''B cell'', ''T cell''], n_features_in = 1\<rparr>,
              scaler = \<lparr>mean = [1, 1], var = [4, 4], scale = [2, 2],
                        scaler_n_features_in = 2\<rparr>,
              description = \<lparr>date = ''2021-01-01'', details = [], url = []\<rparr>\<rparr>\<rparr>) \<and>
   classifier (model (example_input [''CD3E'', ''GAPDH''] [2, 2])) =
     \<lparr>features = [''CD19'', ''CD3E''], coef = [[2, 0], [0, 2]], intercept = [0, 0],
      classes = [''B cell'', ''T cell''], n_features_in = 2\<rparr>"
  by (simp add: run_celltype)

text \<open>
  C1, amended. After \<open>celltype\<close> has returned, the scaler of the model (mean, variance,
  scale) is what it was, and so are the classifier's intercepts and classes; the
  classifier's feature list, weight matrix and \<open>n_features_in\<close> have been replaced
  by their restriction to the positions \<open>lr_idx\<close> that line 249 computes: the
  features at those positions, the columns of \<open>coef\<close> at those positions, and their
  number. For a model without repeated features the new feature list is the list of the
  input's genes that the model has, in the order of the input.
\<close>

theorem celltype_restricts_classifier_keeps_scaler:
  assumes "celltype predict self = Inr (res, self')"
  shows "scaler (model self') = scaler (model self) \<and>
         intercept (classifier (model self')) = intercept (classifier (model self)) \<and>
         classes (classifier (model self')) = classes (classifier (model self)) \<and>
         features (classifier (model self')) =
           map (\<lambda>i. features (classifier (model self)) ! i)
               (lr_positions (features (classifier (model self))) (indata_genes self)) \<and>
         coef (classifier (model self')) =
           map (\<lambda>row. map (\<lambda>i. row ! i)
                          (lr_positions (features (classifier (model self))) (indata_genes self)))
               (coef (classifier (model self))) \<and>
         n_features_in (classifier (model self')) =
           length (lr_positions (features (classifier (model self))) (indata_genes self)) \<and>
         (distinct (features (classifier (model self))) \<longrightarrow>
            features (classifier (model self')) =
              filter (\<lambda>g. g \<in> set (features (classifier (model self)))) (indata_genes self))"
proof -
  let ?feats = "features (classifier (model self))"
  let ?genes = "indata_genes self"
  note m = match_and_scale_Inr[OF celltype_Inr[OF assms]]
  have "map (\<lambda>i. ?feats ! i) (lr_positions ?feats ?genes) = filter (\<lambda>g. g \<in> set ?feats) ?genes"
    if d: "distinct ?feats"
  proof -
    have "map (\<lambda>i. ?feats ! i) (map (position ?feats) (filter (\<lambda>g. g \<in> set ?feats) ?genes)) =
          map (\<lambda>g. g) (filter (\<lambda>g. g \<in> set ?feats) ?genes)"
      unfolding map_map using positions_distinct(3)[OF d] by (intro map_cong) auto
    then show ?thesis by (simp add: lr_positions_distinct[OF d])
  qed
  then show ?thesis using m(1,3,4,5,6,7) by simp
qed

theorem celltype_restricts_classifier_witness:
  "\<exists>res self'.
     celltype predict_labels_and_prob (example_input [''CD3E'', ''GAPDH''] [2, 2]) =
       Inr (res, self') \<and>
     scaler (model self') = scaler (example_model [2, 2]) \<and>
     features (classifier (model self')) = [''CD3E''] \<and>
     coef (classifier (model self')) = [[0], [2]] \<and>
     n_features_in (classifier (model self')) = 1"
proof -
  obtain res self' where
    r: "celltype predict_labels_and_prob (example_input [''CD3E'', ''GAPDH''] [2, 2]) =
          Inr (res, self')"
    by (simp add: run_celltype)
  have lr: "lr_positions [''CD19'', ''CD3E''] [''CD3E'', ''GAPDH''] = [1]"
    by (simp add: lr_positions_def)
  from celltype_restricts_classifier_keeps_scaler[OF r]
  have "scaler (model self') = scaler (example_model [2, 2]) \<and>
     features (classifier (model self')) = [''CD3E''] \<and>
     coef (classifier (model self')) = [[0], [2]] \<and>
     n_features_in (classifier (model self')) = 1"
    by (simp add: example_input_def example_model_def lr)
  then show ?thesis using r by blast
qed

text \<open>
  C2 as stated fails: the sources have no check of the intersection. For an input whose
  genes (ACTB, GAPDH) the example model does not have, matching and scaling go through with
  no column and no feature left, the model's classifier is reduced to no feature, and with
  the predictor of the specification the call returns a label for the cell (the class of
  the largest intercept).
\<close>

theorem empty_intersection_counterexample:
  "match_and_scale (example_input [''ACTB'', ''GAPDH''] [2, 2]) =
     Inr \<lparr>self_adata = \<lparr>adata_X = [[3, 7]], var_names = [''ACTB'', ''GAPDH''],
                         obs_names = [''cell1''], raw = None\<rparr>,
          indata = [[]], indata_genes = [],
          model =
            \<lparr>classifier = \<lparr>features = [], coef = [[], []], intercept = [0, 0],
                            classes = [''B cell'', ''T cell''], n_features_in = 0\<rparr>,
             scaler = \<lparr>mean = [1, 1], var = [4, 4], scale = [2, 2],
                       scaler_n_features_in = 2\<rparr>,
             description = \<lparr>date = ''2021-01-01'', details = [], url = []\<rparr>\<rparr>\<rparr> \<and>
   celltype predict_labels_and_prob (example_input [''ACTB'', ''GAPDH''] [2, 2]) =
     Inr (\<lparr>predicted_labels =
             \<lparr>index = [''cell1''], columns = [(''predicted_labels'', [''B cell''])]\<rparr>,
           probability_table =
             \<lparr>index = [''cell1''],
              columns = [(''B cell'', [1 / 2]), (''T cell'', [1 / 2])]\<rparr>,
           cell_count = 1,
           adata = \<lparr>adata_X = [[3, 7]], var_names = [''ACTB'', ''GAPDH''],
                    obs_names = [''cell1''], raw = None\<rparr>\<rparr>,
          \<lparr>self_adata = \<lparr>adata_X = [[3, 7]], var_names = [''ACTB'', ''GAPDH''],
                         obs_names = [''cell1''], raw = None\<rparr>,
           indata = [[]], indata_genes = [],
           model =
             \<lparr>classifier = \<lparr>features = [], coef = [[], []], intercept = [0, 0],
                             classes = [''B cell'', ''T cell''], n_features_in = 0\<rparr>,
              scaler = \<lparr>mean = [1, 1], var = [4, 4], scale = [2, 2],
                        scaler_n_features_in = 2\<rparr>,
              description = \<lparr>date = ''2021-01-01'', details = [], url = []\<rparr>\<rparr>\<rparr>)"
  by (simp add: run_celltype)

text \<open>
  C2, amended. When the input shares no gene with the model, the matching and scaling of
  \<open>celltype\<close> raise nothing: the input is cut to no column and no gene, the model's
  classifier to no feature (\<open>n_features_in = 0\<close>, empty rows of weights), and
  \<open>celltype\<close> is then whatever the prediction on that state gives.
\<close>

theorem empty_intersection_is_not_rejected:
  assumes "set (indata_genes self) \<inter> set (features (classifier (model self))) = {}"
  shows "match_and_scale self =
           Inr (self\<lparr>indata := map (\<lambda>row. []) (indata self), indata_genes := [],
                     model := (model self)\<lparr>classifier := (classifier (model self))
                       \<lparr>n_features_in := 0, features := [],
                        coef := map (\<lambda>row. []) (coef (classifier (model self)))\<rparr>\<rparr>\<rparr>) \<and>
         celltype predict self =
           predict_and_wrap predict
             (self\<lparr>indata := map (\<lambda>row. []) (indata self), indata_genes := [],
                   model := (model self)\<lparr>classifier := (classifier (model self))
                     \<lparr>n_features_in := 0, features := [],
                      coef := map (\<lambda>row. []) (coef (classifier (model self)))\<rparr>\<rparr>\<rparr>)"
  using match_and_scale_disjoint[OF assms] by (simp add: celltype_def)

theorem empty_intersection_witness:
  "set (indata_genes (example_input [''ACTB'', ''GAPDH''] [2, 2])) \<inter>
     set (features (classifier (model (example_input [''ACTB'', ''GAPDH''] [2, 2])))) = {} \<and>
   indata_genes (example_input [''ACTB'', ''GAPDH''] [2, 2]) = [''ACTB'', ''GAPDH''] \<and>
   map_sum id indata (match_and_scale (example_input [''ACTB'', ''GAPDH''] [2, 2])) = Inr [[]] \<and>
   map_sum id indata_genes (match_and_scale (example_input [''ACTB'', ''GAPDH''] [2, 2])) = Inr []"
proof -
  have d: "set (indata_genes (example_input [''ACTB'', ''GAPDH''] [2, 2])) \<inter>
     set (features (classifier (model (example_input [''ACTB'', ''GAPDH''] [2, 2])))) = {}"
    by (simp add: example_input_def example_model_def)
  from empty_intersection_is_not_rejected[OF d, of predict_labels_and_prob]
  have "map_sum id indata (match_and_scale (example_input [''ACTB'', ''GAPDH''] [2, 2])) = Inr [[]]"
    and "map_sum id indata_genes (match_and_scale (example_input [''ACTB'', ''GAPDH''] [2, 2])) = Inr []"
    by (simp_all add: example_input_def)
  then show ?thesis using d by (simp add: example_input_def)
qed

text \<open>
  C9 as stated fails: the sources never look at the sign of a scale. With the scale
  \<open>-2\<close> for CD3E, the value 3 and the mean 1, matching and scaling return the scaled
  value \<open>(3 - 1) / (-2) = -1\<close> and raise nothing.
\<close>

theorem negative_scale_counterexample:
  "match_and_scale (example_input [''CD3E'', ''GAPDH''] [2, - 2]) =
     Inr \<lparr>self_adata = \<lparr>adata_X = [[3, 7]], var_names = [''CD3E'', ''GAPDH''],
                         obs_names = [''cell1''], raw = None\<rparr>,
          indata = [[- 1]], indata_genes = [''CD3E''],
          model =
            \<lparr>classifier = \<lparr>features = [''CD3E''], coef = [[0], [2]], intercept = [0, 0],
                            classes = [''B cell'', ''T cell''], n_features_in = 1\<rparr>,
             scaler = \<lparr>mean = [1, 1], var = [4, 4], scale = [2, - 2],
                       scaler_n_features_in = 2\<rparr>,
             description = \<lparr>date = ''2021-01-01'', details = [], url = []\<rparr>\<rparr>\<rparr>"
  by (simp add: run_celltype)

text \<open>
  C9, amended. The standardization makes no check of the scales. For every well-formed
  input (rows as long as the gene list, a model without repeated features whose means,
  scales and weight rows are as long as its feature list) and all nonzero scales,
  positive or negative, it raises nothing; every cell keeps one value per gene that the
  model has, in the order of the input, and that value is \<open>(x - \<mu>) / \<sigma>\<close> for the
  gene's mean and scale, replaced by 10 when it is above 10 and left as it is otherwise:
  there is no lower clip.
\<close>

theorem standardization_has_no_scale_check:
  assumes "well_formed self"
    and "0 \<notin> set (scale (scaler (model self)))"
  shows "\<exists>self'. match_and_scale self = Inr self' \<and>
           length (indata self') = length (indata self) \<and>
           (\<forall>r<length (indata self).
              indata self' ! r =
                map (\<lambda>i. let z = (indata self ! r ! i -
                                    mean (scaler (model self)) !
                                      position (features (classifier (model self)))
                                        (indata_genes self ! i)) /
                                   scale (scaler (model self)) !
                                     position (features (classifier (model self)))
                                       (indata_genes self ! i)
                          in if z > 10 then 10 else z)
                    (filter (\<lambda>i. indata_genes self ! i \<in> set (features (classifier (model self))))
                            [0..<length (indata_genes self)]))"
  using match_and_scale_well_formed[OF assms(1)] by (simp add: clip10_def Let_def)

theorem standardization_witness:
  "well_formed (example_input [''CD3E'', ''GAPDH''] [2, - 2]) \<and>
   0 \<notin> set (scale (scaler (model (example_input [''CD3E'', ''GAPDH''] [2, - 2])))) \<and>
   (\<exists>self'. match_and_scale (example_input [''CD3E'', ''GAPDH''] [2, - 2]) = Inr self' \<and>
      length (indata self') = 1 \<and> indata self' ! 0 = [- 1])"
proof -
  let ?ex = "example_input [''CD3E'', ''GAPDH''] [2, - 2]"
  have w: "well_formed ?ex"
    by (simp add: well_formed_def example_input_def example_model_def)
  have z: "0 \<notin> set (scale (scaler (model ?ex)))"
    by (simp add: example_input_def example_model_def)
  have p: "position [''CD19'', ''CD3E''] ''CD3E'' = 1" by (simp add: position_def)
  from standardization_has_no_scale_check[OF w z] obtain self' where
    s: "match_and_scale ?ex = Inr self'" "length (indata self') = length (indata ?ex)"
      "\<forall>r<length (indata ?ex).
              indata self' ! r =
                map (\<lambda>i. let z = (indata ?ex ! r ! i -
                                    mean (scaler (model ?ex)) !
                                      position (features (classifier (model ?ex)))
                                        (indata_genes ?ex ! i)) /
                                   scale (scaler (model ?ex)) !
                                     position (features (classifier (model ?ex)))
                                       (indata_genes ?ex ! i)
                          in if z > 10 then 10 else z)
                    (filter (\<lambda>i. indata_genes ?ex ! i \<in> set (features (classifier (model ?ex))))
                            [0..<length (indata_genes ?ex)])"
    by blast
  have "length (indata self') = 1" using s(2) by (simp add: example_input_def)
  moreover have "indata self' ! 0 = [- 1]"
    using s(3) by (simp add: example_input_def example_model_def p)
  ultimately show ?thesis using w z s(1) by blast
qed

subsection \<open>The integrity check of the expression matrix\<close>

lemma fold_min_nonneg:
  fixes x :: real
  assumes "0 \<le> x" and "\<forall>v \<in> set xs. 0 \<le> v"
  shows "0 \<le> fold min xs x"
  using assms by (induction xs arbitrary: x) auto

lemma matrix_min_nonneg:
  assumes "\<forall>v \<in> set (concat m). 0 \<le> v" and "concat m \<noteq> []"
  shows "\<exists>lowest. matrix_min m = Inr lowest \<and> 0 \<le> lowest"
proof -
  obtain x xs where c: "concat m = x # xs" using assms(2) by (cases "concat m") auto
  have "0 \<le> fold min xs x"
    using assms(1) unfolding c by (intro fold_min_nonneg) auto
  then show ?thesis by (simp add: matrix_min_def c)
qed

text \<open>
  C7 as stated fails: only the first row is read. The matrix with the rows
  \<open>[ln 10001]\<close> and \<open>[0]\<close> has a second row whose sum of \<open>exp v - 1\<close> is 0, ten
  thousand away from 10000; \<^verbatim>\<open>Classifier.__init__\<close> accepts it, and so does
  \<^verbatim>\<open>train\<close>, which returns a model.
\<close>

theorem second_row_unchecked_counterexample:
  "\<bar>sum_list (map expm1 [0]) - 10000\<bar> > 1 \<and>
   Classifier_init_h5ad
     \<lparr>adata_X = [[ln 10001], [0]], var_names = [''CD3E''],
      obs_names = [''cell1'', ''cell2''], raw = None\<rparr>
     (example_model [2, 2]) =
   Inr \<lparr>self_adata = \<lparr>adata_X = [[ln 10001], [0]], var_names = [''CD3E''],
                       obs_names = [''cell1'', ''cell2''], raw = None\<rparr>,
        indata = [[ln 10001], [0]], indata_genes = [''CD3E''],
        model = example_model [2, 2]\<rparr> \<and>
   snd (train train_globals (canned_sklearn [[1]]) sorting_argpartition ''today''
          [[ln 10001], [0]] [''B'', ''T''] [''CD3E''] False 100 1000 10 False 500 [] [] []) =
   Inr \<lparr>classifier = \<lparr>features = [''CD3E''], coef = [[1]], intercept = [0],
                       classes = [''B'', ''T''], n_features_in = 1\<rparr>,
        scaler = \<lparr>mean = [0], var = [1], scale = [1], scaler_n_features_in = 1\<rparr>,
        description = \<lparr>date = ''today'', details = [], url = []\<rparr>\<rparr>"
  by (simp add: Classifier_init_h5ad_def matrix_min_def check_log1p_normalized_def expm1_def
      train_def train_checked_def where_true_def canned_sklearn_def coef_rows_def
      train_SGDClassifier_def np_unique_def Let_def)

text \<open>
  C7, amended. At loading time only the first row of the expression matrix is checked.
  For a matrix of non-negative values with a non-empty first row, \<^verbatim>\<open>Classifier.__init__\<close>
  (h5ad input) raises the ValueError for an invalid expression matrix exactly when the sum
  of \<open>exp v - 1\<close> over the first row differs from 10000 by more than 1, and otherwise
  accepts the matrix as it is, whatever the other rows hold; \<^verbatim>\<open>train\<close> raises the same
  error, before anything else, exactly in that case and otherwise goes on with the rest of
  the function.
\<close>

theorem only_first_row_is_checked:
  assumes "adata_X a = row0 # rest" and "row0 \<noteq> []"
    and "\<forall>v \<in> set (concat (row0 # rest)). 0 \<le> v"
  shows "Classifier_init_h5ad a m =
           (if \<bar>sum_list (map expm1 row0) - 10000\<bar> > 1 then
              Inl (ValueError ''Invalid expression matrix, expect log1p normalized expression to 10000 counts per cell'')
            else Inr \<lparr>self_adata = a, indata = row0 # rest, indata_genes = var_names a,
                      model = m\<rparr>) \<and>
         train g sk ap now (row0 # rest) labels genes mini_batch batch_number batch_size epochs
             feature_selection top_genes d1 d2 d3 =
           (if \<bar>sum_list (map expm1 row0) - 10000\<bar> > 1 then
              ([], Inl (ValueError ''Invalid expression matrix, expect log1p normalized expression to 10000 counts per cell''))
            else train_checked g sk ap now (row0 # rest) labels genes mini_batch batch_number
                   batch_size epochs feature_selection top_genes d1 d2 d3)"
proof -
  have "concat (adata_X a) \<noteq> []" using assms(1,2) by simp
  from matrix_min_nonneg[OF _ this] assms(1,3)
  obtain lowest where l: "matrix_min (adata_X a) = Inr lowest" "0 \<le> lowest" by auto
  show ?thesis
    using l assms(1)
    by (simp add: Classifier_init_h5ad_def check_log1p_normalized_def train_def)
qed

theorem only_first_row_is_checked_witness:
  "[ln 10001] \<noteq> [] \<and> (0::real) \<le> ln 10001 \<and>
   Classifier_init_h5ad
     \<lparr>adata_X = [[ln 10001], [0]], var_names = [''CD3E''],
      obs_names = [''cell1'', ''cell2''], raw = None\<rparr>
     (example_model [2, 2]) =
   Inr \<lparr>self_adata = \<lparr>adata_X = [[ln 10001], [0]], var_names = [''CD3E''],
                       obs_names = [''cell1'', ''cell2''], raw = None\<rparr>,
        indata = [[ln 10001], [0]], indata_genes = [''CD3E''],
        model = example_model [2, 2]\<rparr> \<and>
   Classifier_init_h5ad
     \<lparr>adata_X = [[0], [ln 10001]], var_names = [''CD3E''],
      obs_names = [''cell1'', ''cell2''], raw = None\<rparr>
     (example_model [2, 2]) =
   Inl (ValueError ''Invalid expression matrix, expect log1p normalized expression to 10000 counts per cell'')"
proof -
  let ?a = "\<lparr>adata_X = [[ln 10001], [0]], var_names = [''CD3E''],
      obs_names = [''cell1'', ''cell2''], raw = None\<rparr>"
  let ?b = "\<lparr>adata_X = [[0], [ln 10001]], var_names = [''CD3E''],
      obs_names = [''cell1'', ''cell2''], raw = None\<rparr>"
  have a1: "adata_X ?a = [ln 10001] # [[0]]" by simp
  have b1: "adata_X ?b = [0] # [[ln 10001]]" by simp
  have a2: "[ln (10001::real)] \<noteq> []" and b2: "[0::real] \<noteq> []" by simp_all
  have a3: "\<forall>v \<in> set (concat ([ln 10001] # [[0]])). (0::real) \<le> v" by simp
  have b3: "\<forall>v \<in> set (concat ([0] # [[ln 10001]])). (0::real) \<le> v" by simp
  note A = only_first_row_is_checked[OF a1 a2 a3, of "example_model [2, 2]" train_globals
      toy_sklearn sorting_argpartition "[]" "[]::string list" "[]" False 0 0 0 False 0 "[]" "[]" "[]",
      THEN conjunct1]
  note B = only_first_row_is_checked[OF b1 b2 b3, of "example_model [2, 2]" train_globals
      toy_sklearn sorting_argpartition "[]" "[]::string list" "[]" False 0 0 0 False 0 "[]" "[]" "[]",
      THEN conjunct1]
  show ?thesis using A B a2 by (simp add: expm1_def)
qed

subsection \<open>Feature selection\<close>

lemma slice_from_last:
  assumes "0 < K"
  shows "slice_from p (- K) = drop (length p - nat K) p"
  using assms by (simp add: slice_from_def slice_bound_def nat_diff_distrib')

lemma partitioned_set:
  assumes "partitioned_at a k p"
  shows "set p = {..<length a}"
proof -
  have d: "distinct p" and l: "length p = length a" and b: "\<forall>i \<in> set p. i < length a"
    using assms by (simp_all add: partitioned_at_def list_all_iff)
  have "card (set p) = length a" using d l by (simp add: distinct_card)
  moreover have "set p \<subseteq> {..<length a}" using b by auto
  ultimately show ?thesis by (simp add: card_subset_eq)
qed

lemma partitioned_top:
  assumes pa: "partitioned_at a k p"
  shows "length (drop k p) = length a - k"
    and "distinct (drop k p)"
    and "set (drop k p) \<subseteq> {..<length a}"
    and "\<And>i. i \<in> set (drop k p) \<Longrightarrow> a ! (p ! k) \<le> a ! i"
    and "\<And>j. j < length a \<Longrightarrow> j \<notin> set (drop k p) \<Longrightarrow> a ! j \<le> a ! (p ! k)"
    and "\<And>i. i \<in> set (drop k p) \<Longrightarrow> card {j. j < length a \<and> a ! i < a ! j} < length a - k"
proof -
  have k: "k < length a" and l: "length p = length a" and d: "distinct p"
    and lo: "\<forall>i<k. a ! (p ! i) \<le> a ! (p ! k)"
    and hi: "\<forall>i. Suc k \<le> i \<and> i < length a \<longrightarrow> a ! (p ! k) \<le> a ! (p ! i)"
    using pa by (auto simp: partitioned_at_def list_all_iff)
  have sp: "set p = {..<length a}" by (rule partitioned_set[OF pa])
  show "length (drop k p) = length a - k" using l by simp
  show "distinct (drop k p)" using d by simp
  show "set (drop k p) \<subseteq> {..<length a}" using sp set_drop_subset[of k p] by auto
  have ge: "a ! (p ! k) \<le> a ! i" if "i \<in> set (drop k p)" for i
  proof -
    from that obtain m where m: "m < length (drop k p)" "drop k p ! m = i"
      by (auto simp: in_set_conv_nth)
    then have i: "i = p ! (k + m)" and km: "k + m < length a" using l by auto
    show ?thesis
    proof (cases m)
      case 0
      then show ?thesis using i by simp
    next
      case (Suc m')
      then show ?thesis using hi km i by auto
    qed
  qed
  then show "\<And>i. i \<in> set (drop k p) \<Longrightarrow> a ! (p ! k) \<le> a ! i" .
  have le: "a ! j \<le> a ! (p ! k)" if "j < length a" "j \<notin> set (drop k p)" for j
  proof -
    have "j \<in> set p" using that(1) sp by simp
    then have "j \<in> set (take k p) \<union> set (drop k p)" by (metis append_take_drop_id set_append)
    then have "j \<in> set (take k p)" using that(2) by simp
    then obtain m where "m < length (take k p)" "take k p ! m = j"
      by (auto simp: in_set_conv_nth)
    then have "m < k" "p ! m = j" by auto
    then show ?thesis using lo by auto
  qed
  then show "\<And>j. j < length a \<Longrightarrow> j \<notin> set (drop k p) \<Longrightarrow> a ! j \<le> a ! (p ! k)" .
  show "card {j. j < length a \<and> a ! i < a ! j} < length a - k" if "i \<in> set (drop k p)" for i
  proof -
    have sub: "{j. j < length a \<and> a ! i < a ! j} \<subseteq> set (drop (Suc k) p)"
    proof
      fix j assume "j \<in> {j. j < length a \<and> a ! i < a ! j}"
      then have j: "j < length a" "a ! i < a ! j" by auto
      have "a ! (p ! k) < a ! j" using ge[OF that] j(2) by simp
      then have "j \<in> set (drop k p)" using le[OF j(1)] by fastforce
      moreover have "drop k p = p ! k # drop (Suc k) p"
        using k l by (simp add: Cons_nth_drop_Suc)
      moreover have "j \<noteq> p ! k" using \<open>a ! (p ! k) < a ! j\<close> by auto
      ultimately show "j \<in> set (drop (Suc k) p)" by simp
    qed
    have "card (set (drop (Suc k) p)) \<le> length (drop (Suc k) p)" by (rule card_length)
    then have "card (set (drop (Suc k) p)) < length a - k" using l k by simp
    moreover have "card {j. j < length a \<and> a ! i < a ! j} \<le> card (set (drop (Suc k) p))"
      using sub by (intro card_mono) auto
    ultimately show ?thesis by simp
  qed
qed


lemma class_top_of_partition:
  assumes K: "0 < K" "K < int n" and len: "length row = n"
    and pa: "partitioned_at (map abs row) (n - nat K) p"
  shows "class_top n (nat K) row (slice_from p (- K))"
proof -
  let ?a = "map abs row"
  let ?k = "n - nat K"
  have la: "length ?a = n" using len by simp
  have lp: "length p = n" using pa la by (simp add: partitioned_at_def)
  have sl: "slice_from p (- K) = drop ?k p" using slice_from_last[OF K(1), of p] lp by simp
  have nk: "n - ?k = nat K" using K by linarith
  note t = partitioned_top[OF pa, unfolded la]
  have abs_at: "?a ! i = \<bar>row ! i\<bar>" if "i < n" for i using that len by simp
  have in_n: "i < n" if "i \<in> set (drop ?k p)" for i using t(3) that by auto
  have 1: "length (drop ?k p) = nat K" using t(1) nk by simp
  have 4: "card {j. j < n \<and> \<bar>row ! i\<bar> < \<bar>row ! j\<bar>} < nat K" if i: "i \<in> set (drop ?k p)" for i
  proof -
    have "{j. j < n \<and> \<bar>row ! i\<bar> < \<bar>row ! j\<bar>} = {j. j < n \<and> ?a ! i < ?a ! j}"
      using abs_at in_n[OF i] by auto
    then show ?thesis using t(6)[OF i] nk by simp
  qed
  have 5: "\<bar>row ! j\<bar> \<le> \<bar>row ! i\<bar>" if "j < n" "j \<notin> set (drop ?k p)" "i \<in> set (drop ?k p)" for i j
  proof -
    have "?a ! j \<le> ?a ! (p ! ?k)" using t(5)[OF that(1,2)] .
    also have "\<dots> \<le> ?a ! i" using t(4)[OF that(3)] .
    finally show ?thesis using abs_at[OF that(1)] abs_at[OF in_n[OF that(3)]] by simp
  qed
  show ?thesis
    unfolding class_top_def sl using 1 t(2) t(3) 4 5 by blast
qed

lemma gene_index_of_tops:
  assumes K: "0 < K" "K < int n"
    and rows: "\<forall>row \<in> set w. length row = n"
    and ap: "\<forall>row \<in> set w. \<exists>p. ap (map abs row) (- K) = Inr p \<and>
                                  partitioned_at (map abs row) (n - nat K) p"
  shows "\<exists>tops. gene_index_of ap w K = Inr (np_unique (concat tops)) \<and>
                list_all2 (class_top n (nat K)) w tops"
proof -
  let ?f = "\<lambda>row. case ap (map abs row) (- K) of
                         Inl e \<Rightarrow> Inl e
                       | Inr p \<Rightarrow> Inr (slice_from p (- K))"
  have "\<exists>y. ?f row = Inr y \<and> class_top n (nat K) row y" if "row \<in> set w" for row
  proof -
    from ap that obtain p where p: "ap (map abs row) (- K) = Inr p"
      "partitioned_at (map abs row) (n - nat K) p" by blast
    have "class_top n (nat K) row (slice_from p (- K))"
      using class_top_of_partition[OF K _ p(2)] rows that by simp
    then show ?thesis using p(1) by simp
  qed
  from mapM_rel[of w ?f "class_top n (nat K)", OF this] obtain tops where
    "mapM ?f w = Inr tops" "list_all2 (class_top n (nat K)) w tops" by blast
  then show ?thesis by (auto simp: gene_index_of_def)
qed

lemma union_of_tops:
  assumes tops: "list_all2 (class_top n k) w tops" and ne: "w \<noteq> []"
  defines "gi \<equiv> np_unique (concat tops)"
  shows "sorted gi" and "distinct gi" and "set gi \<subseteq> {..<n}"
    and "k \<le> length gi" and "length gi \<le> length w * k" and "length gi \<le> n"
    and "\<And>i. i \<in> set gi \<Longrightarrow> \<exists>row \<in> set w. card {j. j < n \<and> \<bar>row ! i\<bar> < \<bar>row ! j\<bar>} < k"
    and "\<And>row j. row \<in> set w \<Longrightarrow> j < n \<Longrightarrow> j \<notin> set gi \<Longrightarrow>
           k \<le> card {i \<in> set gi. \<bar>row ! j\<bar> \<le> \<bar>row ! i\<bar>}"
proof -
  have sg: "set gi = \<Union> (set ` set tops)" by (simp add: gi_def np_unique_def)
  show "sorted gi" and d: "distinct gi" by (simp_all add: gi_def np_unique_def)
  have lw: "length tops = length w" using tops by (simp add: list_all2_lengthD)
  have each: "class_top n k (w ! m) (tops ! m)" if "m < length w" for m
    using list_all2_nthD[OF tops that] .
  have top_of: "\<exists>m<length w. sel = tops ! m" if "sel \<in> set tops" for sel
    using that lw by (metis in_set_conv_nth)
  show sub: "set gi \<subseteq> {..<n}"
  proof
    fix i assume "i \<in> set gi"
    then obtain sel where "sel \<in> set tops" "i \<in> set sel" using sg by auto
    then show "i \<in> {..<n}" using top_of each by (fastforce simp: class_top_def)
  qed
  have lg: "length gi = card (set gi)" using d by (simp add: distinct_card)
  show "k \<le> length gi"
  proof -
    have "0 < length w" using ne by simp
    then have c: "class_top n k (w ! 0) (tops ! 0)" by (rule each)
    have "tops ! 0 \<in> set tops" using lw ne by simp
    then have "set (tops ! 0) \<subseteq> set gi" using sg by auto
    then have "card (set (tops ! 0)) \<le> card (set gi)" by (intro card_mono) auto
    moreover have "card (set (tops ! 0)) = k"
      using c by (simp add: class_top_def distinct_card)
    ultimately show ?thesis using lg by simp
  qed
  show "length gi \<le> length w * k"
  proof -
    have "length gi \<le> length (concat tops)"
      by (simp add: gi_def np_unique_def length_remdups_leq)
    also have "\<dots> = sum_list (map length tops)" by (simp add: length_concat)
    also have "map length tops = replicate (length w) k"
      using each lw by (intro nth_equalityI) (auto simp: class_top_def)
    finally show ?thesis by (simp add: sum_list_replicate)
  qed
  show "length gi \<le> n"
  proof -
    have "card (set gi) \<le> card {..<n}" using sub by (intro card_mono) auto
    then show ?thesis using lg by simp
  qed
  show "\<exists>row \<in> set w. card {j. j < n \<and> \<bar>row ! i\<bar> < \<bar>row ! j\<bar>} < k" if "i \<in> set gi" for i
  proof -
    from that obtain sel where "sel \<in> set tops" "i \<in> set sel" using sg by auto
    then obtain m where m: "m < length w" "sel = tops ! m" using top_of by blast
    have "card {j. j < n \<and> \<bar>w ! m ! i\<bar> < \<bar>w ! m ! j\<bar>} < k"
      using each[OF m(1)] \<open>i \<in> set sel\<close> m(2) by (simp add: class_top_def)
    then show ?thesis using m(1) nth_mem by blast
  qed
  show "k \<le> card {i \<in> set gi. \<bar>row ! j\<bar> \<le> \<bar>row ! i\<bar>}"
    if "row \<in> set w" "j < n" "j \<notin> set gi" for row j
  proof -
    from that(1) obtain m where m: "m < length w" "w ! m = row" by (auto simp: in_set_conv_nth)
    let ?sel = "tops ! m"
    have c: "class_top n k row ?sel" using each[OF m(1)] m(2) by simp
    have "?sel \<in> set tops" using m(1) lw by simp
    then have in_gi: "set ?sel \<subseteq> set gi" using sg by auto
    then have "j \<notin> set ?sel" using that(3) by auto
    then have "\<forall>i \<in> set ?sel. \<bar>row ! j\<bar> \<le> \<bar>row ! i\<bar>"
      using c that(2) by (simp add: class_top_def)
    then have "set ?sel \<subseteq> {i \<in> set gi. \<bar>row ! j\<bar> \<le> \<bar>row ! i\<bar>}" using in_gi by auto
    then have "card (set ?sel) \<le> card {i \<in> set gi. \<bar>row ! j\<bar> \<le> \<bar>row ! i\<bar>}"
      by (intro card_mono) auto
    moreover have "card (set ?sel) = k" using c by (simp add: class_top_def distinct_card)
    ultimately show ?thesis by simp
  qed
qed


lemmas run_train =
  train_def train_checked_def check_log1p_normalized_def expm1_def where_true_def
  canned_sklearn_def coef_rows_def train_SGDClassifier_def select_features_def
  gene_index_of_def sorting_argpartition_def slice_from_def slice_bound_def np_unique_def take_idx_def
  take_cols_def Let_def

lemma select_features_Inr:
  assumes run: "select_features g sk ap x labels genes mb bn bs ep top_genes clf sc calls =
                  (calls', Inr (clf2, sc2, genes2))"
  shows "top_genes < int (length genes)"
    and "\<exists>gi calls2. gene_index_of ap (coef clf) top_genes = Inr gi \<and>
           genes2 = map (\<lambda>i. genes ! i) gi \<and>
           mean sc2 = map (\<lambda>i. mean sc ! i) gi \<and>
           var sc2 = map (\<lambda>i. var sc ! i) gi \<and>
           scale sc2 = map (\<lambda>i. scale sc ! i) gi \<and>
           scaler_n_features_in sc2 = length gi \<and>
           calls' = calls @ calls2 \<and>
           train_SGDClassifier g sk (map (\<lambda>row. map (\<lambda>i. row ! i) gi) x) labels mb bn bs ep =
             (calls2, Inr clf2)"
proof -
  show lt: "top_genes < int (length genes)"
    using run by (auto simp: select_features_def split: if_splits)
  from run lt obtain gi genes' x' calls2 mean' var' scale' where
    gi: "gene_index_of ap (coef clf) top_genes = Inr gi"
    and g: "take_idx genes gi = Inr genes'"
    and x: "take_cols x gi = Inr x'"
    and t: "train_SGDClassifier g sk x' labels mb bn bs ep = (calls2, Inr clf2)"
    and m: "take_idx (mean sc) gi = Inr mean'"
    and v: "take_idx (var sc) gi = Inr var'"
    and s: "take_idx (scale sc) gi = Inr scale'"
    and r: "calls' = calls @ calls2" "genes2 = genes'"
       "sc2 = \<lparr>mean = mean', var = var', scale = scale', scaler_n_features_in = length gi\<rparr>"
    unfolding select_features_def
    by (auto split: sum.splits prod.splits if_splits)
  show "\<exists>gi calls2. gene_index_of ap (coef clf) top_genes = Inr gi \<and>
           genes2 = map (\<lambda>i. genes ! i) gi \<and>
           mean sc2 = map (\<lambda>i. mean sc ! i) gi \<and>
           var sc2 = map (\<lambda>i. var sc ! i) gi \<and>
           scale sc2 = map (\<lambda>i. scale sc ! i) gi \<and>
           scaler_n_features_in sc2 = length gi \<and>
           calls' = calls @ calls2 \<and>
           train_SGDClassifier g sk (map (\<lambda>row. map (\<lambda>i. row ! i) gi) x) labels mb bn bs ep =
             (calls2, Inr clf2)"
    using gi g x t m v s r by (auto simp: take_idx_Inr take_cols_Inr)
qed


lemma forced_top:
  assumes "partitioned_at a k p" and "Suc k = length a" and "m < length a"
    and "\<forall>j<length a. j \<noteq> m \<longrightarrow> a ! j < a ! m"
  shows "drop k p = [m]"
proof -
  have l: "length p = length a" using assms(1) by (simp add: partitioned_at_def)
  have kl: "k < length p" using assms(2) l by simp
  have d: "drop k p = [p ! k]" using Cons_nth_drop_Suc[OF kl] assms(2) l by simp
  note t = partitioned_top[OF assms(1)]
  have pk: "p ! k < length a" using t(3) d by auto
  have "p ! k = m"
  proof (rule ccontr)
    assume n: "p ! k \<noteq> m"
    then have "m \<notin> set (drop k p)" using d by simp
    then have "a ! m \<le> a ! (p ! k)" using t(5)[OF assms(3)] by simp
    moreover have "a ! (p ! k) < a ! m" using assms(4) pk n by simp
    ultimately show False by simp
  qed
  then show ?thesis using d by simp
qed

text \<open>
  The weights of the counterexample below have no ties within a class, so every
  \<^verbatim>\<open>argpartition\<close> that meets numpy's contract selects the same three features there.
\<close>

lemma every_argpartition_selects_class_tops:
  assumes "\<exists>p. ap (map abs [10, 0, 0, 6]) (- 1) = Inr p \<and>
             partitioned_at (map abs [10, 0, 0, 6]) 3 p"
    and "\<exists>p. ap (map abs [0, - 10, 0, 6]) (- 1) = Inr p \<and>
             partitioned_at (map abs [0, - 10, 0, 6]) 3 p"
    and "\<exists>p. ap (map abs [0, 0, 10, 6]) (- 1) = Inr p \<and>
             partitioned_at (map abs [0, 0, 10, 6]) 3 p"
  shows "gene_index_of ap [[10, 0, 0, 6], [0, - 10, 0, 6], [0, 0, 10, 6]] 1 = Inr [0, 1, 2]"
proof -
  from assms(1) obtain p where
    p: "ap (map abs [10, 0, 0, 6]) (- 1) = Inr p" "partitioned_at (map abs [10, 0, 0, 6]) 3 p"
    by (elim exE conjE)
  from assms(2) obtain q where
    q: "ap (map abs [0, - 10, 0, 6]) (- 1) = Inr q" "partitioned_at (map abs [0, - 10, 0, 6]) 3 q"
    by (elim exE conjE)
  from assms(3) obtain r where
    r: "ap (map abs [0, 0, 10, 6]) (- 1) = Inr r" "partitioned_at (map abs [0, 0, 10, 6]) 3 r"
    by (elim exE conjE)
  have lp: "length p = 4" and lq: "length q = 4" and lr: "length r = 4"
    using p(2) q(2) r(2) by (simp_all add: partitioned_at_def)
  have "drop 3 p = [0]"
    by (rule forced_top[OF p(2)]) (auto simp: less_Suc_eq numeral_eq_Suc)
  moreover have "drop 3 q = [1]"
    by (rule forced_top[OF q(2)]) (auto simp: less_Suc_eq numeral_eq_Suc)
  moreover have "drop 3 r = [2]"
    by (rule forced_top[OF r(2)]) (auto simp: less_Suc_eq numeral_eq_Suc)
  ultimately show ?thesis
    using p(1) q(1) r(1) lp lq lr
    by (simp add: gene_index_of_def slice_from_def slice_bound_def np_unique_def)
qed

text \<open>
  C3 as stated fails. With the weights \<open>[10, 0, 0, 6]\<close>, \<open>[0, -10, 0, 6]\<close> and
  \<open>[0, 0, 10, 6]\<close> of three classes over four genes, the mean absolute weights are
  10/3, 10/3, 10/3 and 6, so the top feature by mean absolute weight is the fourth gene.
  With \<^verbatim>\<open>top_genes = 1\<close> the sources keep the first three genes, each the top of one
  class: three features, not one, and not the fourth gene; \<^verbatim>\<open>train\<close> on three cells
  of three classes returns a model over these three.
\<close>

theorem feature_selection_counterexample:
  "mean_abs_weight [[10, 0, 0, 6], [0, - 10, 0, 6], [0, 0, 10, 6]] 0 = 10 / 3 \<and>
   mean_abs_weight [[10, 0, 0, 6], [0, - 10, 0, 6], [0, 0, 10, 6]] 1 = 10 / 3 \<and>
   mean_abs_weight [[10, 0, 0, 6], [0, - 10, 0, 6], [0, 0, 10, 6]] 2 = 10 / 3 \<and>
   mean_abs_weight [[10, 0, 0, 6], [0, - 10, 0, 6], [0, 0, 10, 6]] 3 = 6 \<and>
   gene_index_of sorting_argpartition [[10, 0, 0, 6], [0, - 10, 0, 6], [0, 0, 10, 6]] 1 =
     Inr [0, 1, 2] \<and>
   snd (train train_globals (canned_sklearn [[10, 0, 0, 6], [0, - 10, 0, 6], [0, 0, 10, 6]])
          sorting_argpartition ''today''
          [[ln 5001, ln 5001, 0, 0], [0, 0, ln 10001, 0], [0, 0, 0, ln 10001]]
          [''B'', ''NK'', ''T''] [''g0'', ''g1'', ''g2'', ''g3'']
          False 100 1000 10 True 1 [] [] []) =
   Inr \<lparr>classifier = \<lparr>features = [''g0'', ''g1'', ''g2''],
                       coef = [[0, 0, 0], [0, 0, 0], [0, 0, 0]], intercept = [0, 0, 0],
                       classes = [''B'', ''NK'', ''T''], n_features_in = 3\<rparr>,
        scaler = \<lparr>mean = [0, 0, 0], var = [1, 1, 1], scale = [1, 1, 1],
                   scaler_n_features_in = 3\<rparr>,
        description = \<lparr>date = ''today'', details = [], url = []\<rparr>\<rparr>"
  by (simp add: run_train mean_abs_weight_def)

text \<open>
  C3, amended. When feature selection succeeds with a positive \<^verbatim>\<open>top_genes\<close>, the
  features are ranked per class by absolute weight. The kept positions \<open>gi\<close> are the
  union, sorted and without repetition, of a top \<^verbatim>\<open>top_genes\<close> of every class: at
  least \<^verbatim>\<open>top_genes\<close> and at most classes times \<^verbatim>\<open>top_genes\<close> (and at most all)
  positions; every kept position is among the \<^verbatim>\<open>top_genes\<close> largest absolute weights
  of some class, and a position that is not kept is matched or exceeded in every class by
  at least \<^verbatim>\<open>top_genes\<close> kept ones. The genes and the scaler's mean, variance and scale
  are cut to these positions (the scaler is not fitted again), and the classifier returned
  is the one of a second round of \<^verbatim>\<open>_SGDClassifier\<close> on the kept columns. The classes
  are the rows of \<^verbatim>\<open>coef_\<close>: one per class for three or more classes; for a two-class
  problem sklearn keeps a single row, and the bounds then give exactly \<^verbatim>\<open>top_genes\<close>
  positions.
\<close>

theorem feature_selection_keeps_union_of_class_tops:
  assumes run: "select_features g sk ap x labels genes mb bn bs ep top_genes clf sc calls =
                  (calls', Inr (clf2, sc2, genes2))"
    and K: "0 < top_genes"
    and rows: "\<forall>row \<in> set (coef clf). length row = length genes"
    and ne: "coef clf \<noteq> []"
    and ap: "\<forall>row \<in> set (coef clf). \<exists>p. ap (map abs row) (- top_genes) = Inr p \<and>
               partitioned_at (map abs row) (length genes - nat top_genes) p"
  shows "\<exists>gi. gene_index_of ap (coef clf) top_genes = Inr gi \<and>
           sorted gi \<and> distinct gi \<and> set gi \<subseteq> {..<length genes} \<and>
           nat top_genes \<le> length gi \<and>
           length gi \<le> length (coef clf) * nat top_genes \<and>
           length gi \<le> length genes \<and>
           (\<forall>i \<in> set gi. \<exists>row \<in> set (coef clf).
              card {j. j < length genes \<and> \<bar>row ! i\<bar> < \<bar>row ! j\<bar>} < nat top_genes) \<and>
           (\<forall>row \<in> set (coef clf). \<forall>j<length genes. j \<notin> set gi \<longrightarrow>
              nat top_genes \<le> card {i \<in> set gi. \<bar>row ! j\<bar> \<le> \<bar>row ! i\<bar>}) \<and>
           genes2 = map (\<lambda>i. genes ! i) gi \<and>
           mean sc2 = map (\<lambda>i. mean sc ! i) gi \<and>
           var sc2 = map (\<lambda>i. var sc ! i) gi \<and>
           scale sc2 = map (\<lambda>i. scale sc ! i) gi \<and>
           scaler_n_features_in sc2 = length gi \<and>
           (\<exists>calls2. calls' = calls @ calls2 \<and>
              train_SGDClassifier g sk (map (\<lambda>row. map (\<lambda>i. row ! i) gi) x) labels mb bn bs ep =
                (calls2, Inr clf2))"
proof -
  note s = select_features_Inr[OF run]
  from gene_index_of_tops[of top_genes "length genes" "coef clf" ap, OF K s(1) rows ap]
  obtain tops where
    gi: "gene_index_of ap (coef clf) top_genes = Inr (np_unique (concat tops))"
    and tops: "list_all2 (class_top (length genes) (nat top_genes)) (coef clf) tops" by blast
  note u = union_of_tops[OF tops ne]
  from s(2) gi obtain calls2 where
    r: "genes2 = map (\<lambda>i. genes ! i) (np_unique (concat tops))"
       "mean sc2 = map (\<lambda>i. mean sc ! i) (np_unique (concat tops))"
       "var sc2 = map (\<lambda>i. var sc ! i) (np_unique (concat tops))"
       "scale sc2 = map (\<lambda>i. scale sc ! i) (np_unique (concat tops))"
       "scaler_n_features_in sc2 = length (np_unique (concat tops))"
       "calls' = calls @ calls2"
       "train_SGDClassifier g sk (map (\<lambda>row. map (\<lambda>i. row ! i) (np_unique (concat tops))) x)
          labels mb bn bs ep = (calls2, Inr clf2)"
    by auto
  show ?thesis
    apply (rule exI[of _ "np_unique (concat tops)"])
    using gi u(1-6) r
    apply (intro conjI)
    apply simp_all
    using u(7) apply blast
    using u(8) apply blast
    done
qed

theorem feature_selection_witness:
  "select_features train_globals
     (canned_sklearn [[10, 0, 0, 6], [0, - 10, 0, 6], [0, 0, 10, 6]]) sorting_argpartition
     [[1, 2, 3, 4], [5, 6, 7, 8], [9, 10, 11, 12]] [''B'', ''NK'', ''T'']
     [''g0'', ''g1'', ''g2'', ''g3''] False 100 1000 10 1
     \<lparr>features = [], coef = [[10, 0, 0, 6], [0, - 10, 0, 6], [0, 0, 10, 6]],
      intercept = [0, 0, 0], classes = [''B'', ''NK'', ''T''], n_features_in = 4\<rparr>
     \<lparr>mean = [0, 0, 0, 0], var = [1, 1, 1, 1], scale = [1, 1, 1, 1],
      scaler_n_features_in = 4\<rparr> [] =
   ([Fit [[1, 2, 3], [5, 6, 7], [9, 10, 11]] [''B'', ''NK'', ''T'']],
    Inr (\<lparr>features = [], coef = [[0, 0, 0], [0, 0, 0], [0, 0, 0]], intercept = [0, 0, 0],
          classes = [''B'', ''NK'', ''T''], n_features_in = 3\<rparr>,
         \<lparr>mean = [0, 0, 0], var = [1, 1, 1], scale = [1, 1, 1], scaler_n_features_in = 3\<rparr>,
         [''g0'', ''g1'', ''g2''])) \<and>
   (\<exists>gi. gene_index_of sorting_argpartition
           [[10, 0, 0, 6], [0, - 10, 0, 6], [0, 0, 10, 6]] 1 = Inr gi \<and>
      sorted gi \<and> distinct gi \<and> 1 \<le> length gi \<and> length gi \<le> 3 \<and>
      [''g0'', ''g1'', ''g2''] = map (\<lambda>i. [''g0'', ''g1'', ''g2'', ''g3''] ! i) gi)"
proof -
  let ?w = "[[10, 0, 0, 6], [0, - 10, 0, 6], [0, 0, 10, 6 :: real]]"
  let ?clf = "\<lparr>features = [], coef = ?w, intercept = [0, 0, 0],
      classes = [''B'', ''NK'', ''T''], n_features_in = 4\<rparr>"
  let ?sc = "\<lparr>mean = [0, 0, 0, 0], var = [1, 1, 1, 1], scale = [1, 1, 1, 1],
      scaler_n_features_in = 4\<rparr>"
  let ?genes = "[''g0'', ''g1'', ''g2'', ''g3'']"
  have run: "select_features train_globals (canned_sklearn ?w) sorting_argpartition
     [[1, 2, 3, 4], [5, 6, 7, 8], [9, 10, 11, 12]] [''B'', ''NK'', ''T''] ?genes
     False 100 1000 10 1 ?clf ?sc [] =
   ([Fit [[1, 2, 3], [5, 6, 7], [9, 10, 11]] [''B'', ''NK'', ''T'']],
    Inr (\<lparr>features = [], coef = [[0, 0, 0], [0, 0, 0], [0, 0, 0]], intercept = [0, 0, 0],
          classes = [''B'', ''NK'', ''T''], n_features_in = 3\<rparr>,
         \<lparr>mean = [0, 0, 0], var = [1, 1, 1], scale = [1, 1, 1], scaler_n_features_in = 3\<rparr>,
         [''g0'', ''g1'', ''g2'']))"
    by (simp add: run_train)
  have K: "(0::int) < 1" by simp
  have rows: "\<forall>row \<in> set (coef ?clf). length row = length ?genes" by simp
  have ne: "coef ?clf \<noteq> []" by simp
  have ap: "\<forall>row \<in> set (coef ?clf). \<exists>p. sorting_argpartition (map abs row) (- 1) = Inr p \<and>
               partitioned_at (map abs row) (length ?genes - nat 1) p"
    by (simp add: sorting_argpartition_def partitioned_at_def numeral_eq_Suc less_Suc_eq)
  from feature_selection_keeps_union_of_class_tops[OF run K rows ne ap]
  obtain gi where "gene_index_of sorting_argpartition (coef ?clf) 1 = Inr gi"
    "sorted gi" "distinct gi" "nat 1 \<le> length gi" "length gi \<le> length (coef ?clf) * nat 1"
    "[''g0'', ''g1'', ''g2''] = map (\<lambda>i. ?genes ! i) gi"
    by (elim exE conjE) (rule that, assumption+)
  then have "\<exists>gi. gene_index_of sorting_argpartition ?w 1 = Inr gi \<and>
      sorted gi \<and> distinct gi \<and> 1 \<le> length gi \<and> length gi \<le> 3 \<and>
      [''g0'', ''g1'', ''g2''] = map (\<lambda>i. ?genes ! i) gi"
    by (intro exI[of _ gi]) simp
  then show ?thesis using run by blast
qed

subsection \<open>Mini-batch fitting\<close>

text \<open>
  C6. In mini-batch mode, when \<^verbatim>\<open>batch_size\<close> exceeds the number of cells,
  \<^verbatim>\<open>_SGDClassifier\<close> raises the ValueError "Number of cells is fewer than the batch
  size" (the exception the specification calls InsufficientDataError), and the log of
  fitting steps is empty: the classifier has received neither \<^verbatim>\<open>fit\<close> nor
  \<^verbatim>\<open>partial_fit\<close>. This holds whatever sklearn does and whatever names the module binds.
\<close>

theorem batch_size_exceeds_cells_raises_before_fit:
  assumes "int (length labels) < batch_size"
  shows "train_SGDClassifier g sk x labels True batch_number batch_size epochs =
           ([], Inl (ValueError ''Number of cells is fewer than the batch size''))"
  using assms by (simp add: train_SGDClassifier_def)

theorem batch_size_exceeds_cells_witness:
  "int (length [''T'', ''B'', ''T'']) < 5 \<and>
   train_SGDClassifier train_globals toy_sklearn [[1], [2], [3]] [''T'', ''B'', ''T''] True 100 5 10 =
     ([], Inl (ValueError ''Number of cells is fewer than the batch size''))"
  using batch_size_exceeds_cells_raises_before_fit
    [of "[''T'', ''B'', ''T'']" 5 train_globals toy_sklearn "[[1], [2], [3]]" 100 10]
  by simp

lemma upto_from_one:
  assumes "1 \<le> (n::int)"
  shows "[1..n] = 1 # [2..n]"
  using assms by (simp add: upto_rec1)

text \<open>
  C5. The epoch loop of \<^verbatim>\<open>_SGDClassifier\<close> calls \<^verbatim>\<open>shuffle\<close>, a name that
  \<^verbatim>\<open>train.py\<close> neither imports nor defines. In mini-batch mode with more cells than
  \<^verbatim>\<open>batch_size\<close> (not zero) and at least one epoch, the first epoch therefore raises
  NameError before any \<^verbatim>\<open>partial_fit\<close>: the fit never completes, whatever sklearn does.
\<close>

theorem mini_batch_fit_raises_NameError:
  assumes "batch_size < int (length labels)" and "batch_size \<noteq> 0" and "1 \<le> epochs"
  shows "train_SGDClassifier train_globals sk x labels True batch_number batch_size epochs =
           ([], Inl (NameError ''name shuffle is not defined''))"
  using assms
  by (simp add: train_SGDClassifier_def arange0_def upto_from_one train_globals_def)

theorem mini_batch_fit_raises_NameError_witness:
  "(2::int) < int (length [''T'', ''B'', ''T'']) \<and> (2::int) \<noteq> 0 \<and> (1::int) \<le> 10 \<and>
   train_SGDClassifier train_globals toy_sklearn [[1], [2], [3]] [''T'', ''B'', ''T''] True 100 2 10 =
     ([], Inl (NameError ''name shuffle is not defined''))"
proof -
  have 1: "(2::int) < int (length [''T'', ''B'', ''T''])" by simp
  have 2: "(2::int) \<noteq> 0" by simp
  have 3: "(1::int) \<le> 10" by simp
  show ?thesis
    using 1 2 3 mini_batch_fit_raises_NameError[OF 1 2 3, of toy_sklearn "[[1], [2], [3]]" 100]
    by simp
qed

text \<open>
  What the loop does once the name is bound. If \<^verbatim>\<open>shuffle\<close> is bound in the module and
  \<^verbatim>\<open>partial_fit\<close> never raises, mini-batch mode with a positive \<^verbatim>\<open>batch_size\<close> below
  the number of cells returns a classifier after \<^verbatim>\<open>epochs\<close> times
  \<open>min(batch_number, \<lceil>cells / batch_size\<rceil>)\<close> calls of \<^verbatim>\<open>partial_fit\<close>.
\<close>

lemma sweep_batches_total:
  assumes "\<forall>c xb yb cl. \<exists>c'. partial_fit sk c xb yb cl = Inr c'"
  shows "\<exists>cs clf'. sweep_batches sk bs xs ys starts clf calls = (calls @ cs, Inr clf') \<and>
           length cs = length starts"
proof (induction starts arbitrary: clf calls)
  case Nil
  then show ?case by simp
next
  case (Cons s starts)
  let ?call = "Partial_fit (slice xs s (s + bs)) (slice ys s (s + bs)) (np_unique ys)"
  from assms obtain c' where
    c': "partial_fit sk clf (slice xs s (s + bs)) (slice ys s (s + bs)) (np_unique ys) = Inr c'"
    by blast
  from Cons.IH[of c' "calls @ [?call]"] obtain cs clf' where
    r: "sweep_batches sk bs xs ys starts c' (calls @ [?call]) = ((calls @ [?call]) @ cs, Inr clf')"
       "length cs = length starts"
    by blast
  have "sweep_batches sk bs xs ys (s # starts) clf calls = (calls @ (?call # cs), Inr clf')"
    using c' r(1) by (simp add: Let_def)
  then show ?case using r(2) by (intro exI[of _ "?call # cs"] exI[of _ clf']) simp
qed

lemma epoch_loop_total:
  assumes sh: "shuffle g = Some sh"
    and pf: "\<forall>c xb yb cl. \<exists>c'. partial_fit sk c xb yb cl = Inr c'"
  shows "\<exists>cs clf'. epoch_loop g sk bs starts eps xs ys clf calls = (calls @ cs, Inr clf') \<and>
           length cs = length eps * length starts"
proof (induction eps arbitrary: xs ys clf calls)
  case Nil
  then show ?case by simp
next
  case (Cons e eps)
  obtain xs' ys' where s: "sh e xs ys = (xs', ys')" by (cases "sh e xs ys") auto
  from sweep_batches_total[OF pf, of bs xs' ys' starts clf calls] obtain cs1 c1 where
    1: "sweep_batches sk bs xs' ys' starts clf calls = (calls @ cs1, Inr c1)"
       "length cs1 = length starts"
    by blast
  from Cons.IH[of xs' ys' c1 "calls @ cs1"] obtain cs2 c2 where
    2: "epoch_loop g sk bs starts eps xs' ys' c1 (calls @ cs1) = ((calls @ cs1) @ cs2, Inr c2)"
       "length cs2 = length eps * length starts"
    by blast
  have "epoch_loop g sk bs starts (e # eps) xs ys clf calls = (calls @ (cs1 @ cs2), Inr c2)"
    using sh s 1(1) 2(1) by simp
  then show ?case using 1(2) 2(2) by (intro exI[of _ "cs1 @ cs2"] exI[of _ c2]) simp
qed

theorem mini_batch_loop_once_shuffle_is_bound:
  assumes "shuffle g = Some sh"
    and "\<forall>c xb yb cl. \<exists>c'. partial_fit sk c xb yb cl = Inr c'"
    and "0 < batch_size" and "batch_size < int (length labels)"
    and "0 \<le> batch_number" and "0 \<le> epochs"
  shows "\<exists>calls clf.
           train_SGDClassifier g sk x labels True batch_number batch_size epochs =
             (calls, Inr clf) \<and>
           int (length calls) =
             epochs * min batch_number \<lceil>real (length labels) / real_of_int batch_size\<rceil>"
proof -
  define n where "n = int (length labels)"
  define c where "c = - ((- n) div batch_size)"
  have "\<lceil>real_of_int (int (length labels)) / real_of_int batch_size\<rceil> =
          - (- int (length labels) div batch_size)"
    by (rule ceiling_divide_eq_div)
  then have c_ceil: "c = \<lceil>real (length labels) / real_of_int batch_size\<rceil>"
    unfolding c_def n_def by simp
  have "0 \<le> real (length labels) / real_of_int batch_size"
    using assms(3) by simp
  then have c_pos: "0 \<le> c"
    unfolding c_ceil by (simp add: zero_le_ceiling)
  define starts0 where "starts0 = map (\<lambda>i. int i * batch_size) [0..<nat c]"
  define starts where "starts = slice_to starts0 (min batch_number (int (length starts0)))"
  have ar: "arange0 n batch_size = Inr starts0"
    using assms(3) by (simp add: arange0_def starts0_def c_def)
  have l0: "int (length starts0) = c" using c_pos by (simp add: starts0_def)
  have ln: "length starts0 = nat c" by (simp add: starts0_def)
  have m0: "0 \<le> min batch_number c" using assms(5) c_pos by simp
  have "\<not> min batch_number c < 0" using m0 by linarith
  then have "slice_bound (nat c) (min batch_number c) = min (nat c) (nat (min batch_number c))"
    unfolding slice_bound_def by (simp only: if_False)
  also have "\<dots> = nat (min batch_number c)" using m0 by linarith
  finally have sb: "slice_bound (nat c) (min batch_number c) = nat (min batch_number c)" .
  have "int (length starts0) = c" by (rule l0)
  then have "length starts = min (nat c) (nat (min batch_number c))"
    unfolding starts_def slice_to_def by (simp add: ln sb)
  then have ls: "int (length starts) = min batch_number c"
    using m0 by linarith
  have le: "int (length [1..epochs]) = epochs" using assms(6) by simp
  from epoch_loop_total[OF assms(1,2), of batch_size starts "[1..epochs]" x labels
      "new_SGDClassifier sk" "[]"]
  obtain cs clf where
    r: "epoch_loop g sk batch_size starts [1..epochs] x labels (new_SGDClassifier sk) [] =
          ([] @ cs, Inr clf)"
       "length cs = length [1..epochs] * length starts"
    by blast
  have run: "train_SGDClassifier g sk x labels True batch_number batch_size epochs = (cs, Inr clf)"
    using assms(4) ar r(1)
    by (simp add: train_SGDClassifier_def n_def[symmetric] starts_def Let_def)
  have "int (length cs) = epochs * min batch_number c"
    using r(2) le ls by (simp del: length_upto)
  then show ?thesis using run c_ceil by auto
qed

theorem mini_batch_loop_once_shuffle_is_bound_witness:
  "(\<exists>calls clf.
      train_SGDClassifier \<lparr>shuffle = Some (\<lambda>epoch xs ys. (rev xs, rev ys))\<rparr> toy_sklearn
        [[1], [2], [3]] [''T'', ''B'', ''T''] True 100 2 2 = (calls, Inr clf) \<and>
      int (length calls) = 2 * min 100 \<lceil>real (length [''T'', ''B'', ''T'']) / real_of_int 2\<rceil>) \<and>
   \<lceil>real (length [''T'', ''B'', ''T'']) / real_of_int 2\<rceil> = 2"
proof -
  let ?g = "\<lparr>shuffle = Some (\<lambda>epoch (xs :: matrix) (ys :: string list). (rev xs, rev ys))\<rparr>"
  have 1: "shuffle ?g = Some (\<lambda>epoch xs ys. (rev xs, rev ys))" by simp
  have 2: "\<forall>c xb yb cl. \<exists>c'. partial_fit (toy_sklearn :: string sklearn) c xb yb cl = Inr c'"
    by (simp add: toy_sklearn_def)
  have 3: "(0::int) < 2" and 4: "(2::int) < int (length [''T'', ''B'', ''T''])"
    and 5: "(0::int) \<le> 100" and 6: "(0::int) \<le> 2" by simp_all
  have 7: "\<lceil>real (length [''T'', ''B'', ''T'']) / real_of_int 2\<rceil> = 2"
    by (simp add: ceiling_eq_iff)
  show ?thesis
    using mini_batch_loop_once_shuffle_is_bound[OF 1 2 3 4 5 6, of "[[1], [2], [3]]"] 7
    by simp
qed

end
